theory Spec2Isabelle
  imports Main "HOL-Library.Sublist" "HOL-Library.AList" "HOL-Library.List_Lexorder"
    "HOL-Library.Product_Lexorder"
begin

section \<open>Strings, buffers and the POSIX path functions\<close>

text \<open>
  The server code (\<^verbatim>\<open>helpers.js\<close>, \<^verbatim>\<open>fileService.js\<close>) works on JavaScript strings and
  Node.js buffers. Both are modelled as \<^typ>\<open>string\<close> (a list of 8-bit characters); decoding
  a buffer as UTF-8 is the identity, which is exact for ASCII data. The functions of Node's
  \<^verbatim>\<open>path\<close> module are not part of the repository; they are modelled here with their POSIX
  behaviour (\<^verbatim>\<open>path.posix\<close>), where \<^verbatim>\<open>/\<close> is the only separator and a backslash is an
  ordinary character of a name.
\<close>

definition BSLASH :: char where
  "BSLASH = CHR 0x5C"

definition DQUOTE :: char where
  "DQUOTE = CHR 0x22"

definition CR :: char where
  "CR = CHR 0x0D"

definition LF :: char where
  "LF = CHR 0x0A"

definition CRLF :: string where
  "CRLF = [CR, LF]"

definition isSlash :: "char \<Rightarrow> bool" where
  "isSlash c = (c = CHR ''/'')"

text \<open>The character class \<^verbatim>\<open>[\/\\]\<close> of the regular expressions of \<^verbatim>\<open>sanitizePath\<close>.\<close>

definition isSep :: "char \<Rightarrow> bool" where
  "isSep c = (c = CHR ''/'' \<or> c = BSLASH)"

text \<open>\<^verbatim>\<open>String.prototype.toLowerCase\<close> on ASCII letters.\<close>

definition toLowerChar :: "char \<Rightarrow> char" where
  "toLowerChar c =
     (case map_of (zip ''ABCDEFGHIJKLMNOPQRSTUVWXYZ'' ''abcdefghijklmnopqrstuvwxyz'') c of
        Some l \<Rightarrow> l
      | None \<Rightarrow> c)"

definition toLowerCase :: "string \<Rightarrow> string" where
  "toLowerCase s = map toLowerChar s"

text \<open>\<^verbatim>\<open>String.prototype.trim\<close>: the ASCII white space and line terminators.\<close>

definition isSpace :: "char \<Rightarrow> bool" where
  "isSpace c = (c \<in> set [CHR 0x09, CHR 0x0A, CHR 0x0B, CHR 0x0C, CHR 0x0D, CHR 0x20])"

definition trim :: "string \<Rightarrow> string" where
  "trim s = rev (dropWhile isSpace (rev (dropWhile isSpace s)))"

text \<open>
  \<^verbatim>\<open>buf.indexOf(value, byteOffset)\<close> and \<^verbatim>\<open>str.indexOf(value)\<close>: the first index at or after
  the offset where \<open>value\<close> occurs, \<open>None\<close> for the source's \<open>-1\<close>.
\<close>

fun indexOfAt :: "string \<Rightarrow> string \<Rightarrow> nat \<Rightarrow> nat option" where
  "indexOfAt v [] i = (if v = [] then Some i else None)"
| "indexOfAt v (x # xs) i = (if prefix v (x # xs) then Some i else indexOfAt v xs (Suc i))"

definition indexOf :: "string \<Rightarrow> string \<Rightarrow> nat \<Rightarrow> nat option" where
  "indexOf buf v off =
     (if length buf < off then (if v = [] then Some (length buf) else None)
      else indexOfAt v (drop off buf) off)"

text \<open>\<^verbatim>\<open>buf.slice(start, end)\<close> with non-negative arguments, clamped to the buffer.\<close>

definition slice :: "string \<Rightarrow> nat \<Rightarrow> nat \<Rightarrow> string" where
  "slice buf s e = take (e - s) (drop s buf)"

text \<open>\<^verbatim>\<open>buf.slice(start, -k)\<close>: the end counts from the end of the buffer.\<close>

definition sliceFromEnd :: "string \<Rightarrow> nat \<Rightarrow> nat \<Rightarrow> string" where
  "sliceFromEnd buf s k = slice buf s (length buf - k)"

subsection \<open>\<^verbatim>\<open>path.basename\<close>, \<^verbatim>\<open>path.extname\<close>, \<^verbatim>\<open>path.dirname\<close>\<close>

text \<open>
  The last component of a path: trailing slashes are skipped, then everything after the
  last remaining slash is taken.
\<close>

definition lastComponent :: "string \<Rightarrow> string" where
  "lastComponent p = rev (takeWhile (\<lambda>c. \<not> isSlash c) (dropWhile isSlash (rev p)))"

text \<open>The last component together with the slashes that follow it.\<close>

definition lastComponentTail :: "string \<Rightarrow> string" where
  "lastComponentTail p =
     rev (takeWhile isSlash (rev p) @ takeWhile (\<lambda>c. \<not> isSlash c) (dropWhile isSlash (rev p)))"

text \<open>
  \<^verbatim>\<open>path.extname(p)\<close>: from the last dot of the last component to its end; empty when the
  component has no dot, when its only dot is its first character, and when it is \<^verbatim>\<open>..\<close>.
\<close>

definition extname :: "string \<Rightarrow> string" where
  "extname p =
     (let comp = lastComponent p;
          ext = rev (takeWhile (\<lambda>c. c \<noteq> CHR ''.'') (rev comp))
      in if CHR ''.'' \<notin> set comp then []
         else if length ext + 1 = length comp then []
         else if comp = ''..'' then []
         else CHR ''.'' # ext)"

text \<open>\<^verbatim>\<open>path.basename(p)\<close> with one argument.\<close>

definition basename1 :: "string \<Rightarrow> string" where
  "basename1 p = lastComponent p"

text \<open>
  \<^verbatim>\<open>path.basename(p, suffix)\<close>. Node compares the suffix with the last component from its end:
  a suffix that is matched in full is cut off (unless it is the whole component); when the
  component ends before the suffix does, the result runs to the end of the path; after a
  mismatch the result is the whole component.
\<close>

definition basename :: "string \<Rightarrow> string \<Rightarrow> string" where
  "basename p sfx =
     (let comp = lastComponent p
      in if sfx \<noteq> [] \<and> length sfx \<le> length p then
           if sfx = p then []
           else if suffix sfx comp then
             (if length sfx = length comp then comp else take (length comp - length sfx) comp)
           else if suffix comp sfx then lastComponentTail p
           else comp
         else comp)"

text \<open>
  \<^verbatim>\<open>path.dirname(p)\<close>: the scan runs over the characters after the first one, skips trailing
  slashes and the last component, and cuts at the slash in front of it.
\<close>

definition dirname :: "string \<Rightarrow> string" where
  "dirname p =
     (if p = [] then ''.''
      else
        let hasRoot = isSlash (hd p);
            r = dropWhile (\<lambda>c. \<not> isSlash c) (dropWhile isSlash (rev (tl p)))
        in if r = [] then (if hasRoot then ''/'' else ''.'')
           else if hasRoot \<and> length r = 1 then ''//''
           else take (length r) p)"

subsection \<open>\<^verbatim>\<open>path.normalize\<close> and \<^verbatim>\<open>path.join\<close>\<close>

text \<open>\<^verbatim>\<open>str.split('/')\<close>.\<close>

fun consHead :: "char \<Rightarrow> string list \<Rightarrow> string list" where
  "consHead c [] = [[c]]"
| "consHead c (l # ls) = (c # l) # ls"

fun splitSlash :: "string \<Rightarrow> string list" where
  "splitSlash [] = [[]]"
| "splitSlash (c # cs) = (if isSlash c then [] # splitSlash cs else consHead c (splitSlash cs))"

text \<open>\<^verbatim>\<open>segs.join('/')\<close>.\<close>

fun joinSlash :: "string list \<Rightarrow> string" where
  "joinSlash [] = []"
| "joinSlash [s] = s"
| "joinSlash (s # t # ss) = s @ CHR ''/'' # joinSlash (t # ss)"

text \<open>
  Node's \<^verbatim>\<open>normalizeString\<close>, segment by segment. The segments kept so far are held in
  reverse order. An empty segment and \<^verbatim>\<open>.\<close> are dropped; \<^verbatim>\<open>..\<close> removes the last kept
  segment unless there is none or it is \<^verbatim>\<open>..\<close> itself, in which case it is kept when
  \<open>allowAboveRoot\<close> holds and dropped otherwise.
\<close>

fun normalizeStep :: "bool \<Rightarrow> string list \<Rightarrow> string \<Rightarrow> string list" where
  "normalizeStep allowAboveRoot res seg =
     (if seg = [] \<or> seg = ''.'' then res
      else if seg = ''..'' then
        (case res of
           [] \<Rightarrow> (if allowAboveRoot then [''..''] else [])
         | r # rs \<Rightarrow> (if r = ''..'' then (if allowAboveRoot then ''..'' # r # rs else r # rs) else rs))
      else seg # res)"

definition normalizeString :: "bool \<Rightarrow> string list \<Rightarrow> string list" where
  "normalizeString allowAboveRoot segs = rev (foldl (normalizeStep allowAboveRoot) [] segs)"

definition normalize :: "string \<Rightarrow> string" where
  "normalize p =
     (if p = [] then ''.''
      else
        let isAbsolute = isSlash (hd p);
            trailingSeparator = isSlash (last p);
            res = joinSlash (normalizeString (\<not> isAbsolute) (splitSlash p))
        in if res = [] then (if isAbsolute then ''/'' else if trailingSeparator then ''./'' else ''.'')
           else (if isAbsolute then ''/'' else []) @ res @ (if trailingSeparator then ''/'' else []))"

text \<open>\<^verbatim>\<open>path.join(a, b)\<close>: the non-empty arguments joined by a slash, then normalized.\<close>

definition join :: "string \<Rightarrow> string \<Rightarrow> string" where
  "join a b =
     (if a = [] \<and> b = [] then ''.''
      else if a = [] then normalize b
      else if b = [] then normalize a
      else normalize (a @ CHR ''/'' # b))"

section \<open>NameValidator: \<^verbatim>\<open>isValidFileName\<close>\<close>

text \<open>The character class \<^verbatim>\<open>[<>:"|?*\x00-\x1f]\<close>.\<close>

definition invalidChar :: "char \<Rightarrow> bool" where
  "invalidChar c = (c \<in> set ''<>:|?*'' \<or> c = DQUOTE \<or> (of_char c :: nat) \<le> 0x1f)"

text \<open>The expression \<^verbatim>\<open>/^(con|prn|aux|nul|com[1-9]|lpt[1-9])$/i\<close>.\<close>

definition reservedNames :: "string \<Rightarrow> bool" where
  "reservedNames s =
     (let l = toLowerCase s
      in l \<in> set [''con'', ''prn'', ''aux'', ''nul'']
         \<or> (length l = 4 \<and> take 3 l \<in> set [''com'', ''lpt''] \<and> l ! 3 \<in> set ''123456789''))"

text \<open>The expression \<^verbatim>\<open>/^\.+$/\<close>.\<close>

definition onlyDots :: "string \<Rightarrow> bool" where
  "onlyDots s = (s \<noteq> [] \<and> list_all (\<lambda>c. c = CHR ''.'') s)"

definition isValidFileName :: "string \<Rightarrow> bool" where
  "isValidFileName filename =
     (if filename = [] then False
      else if length filename = 0 \<or> length filename > 255 then False
      else if list_ex invalidChar filename then False
      else if reservedNames (basename filename (extname filename)) then False
      else if onlyDots filename then False
      else True)"

section \<open>MultipartDecoder: \<^verbatim>\<open>parseHeaders\<close> and \<^verbatim>\<open>parseMultipart\<close>\<close>

text \<open>\<^verbatim>\<open>headersText.split('\r\n')\<close>.\<close>

fun splitCRLF :: "string \<Rightarrow> string list" where
  "splitCRLF [] = [[]]"
| "splitCRLF [c] = [[c]]"
| "splitCRLF (c # d # cs) =
     (if c = CR \<and> d = LF then [] # splitCRLF cs else consHead c (splitCRLF (d # cs)))"

text \<open>
  A JavaScript object with string keys and string values is an association list in
  insertion order. An assignment to the key \<^verbatim>\<open>__proto__\<close> with a string value goes to the
  setter of \<^verbatim>\<open>Object.prototype\<close>, which ignores it, and creates no property. The code
  reads an object by its keys; the order in which the runtime enumerates them, keys that
  are array indices first, is not modelled.
\<close>

type_synonym jsobject = "(string \<times> string) list"

definition setProp :: "jsobject \<Rightarrow> string \<Rightarrow> string \<Rightarrow> jsobject" where
  "setProp obj k v = (if k = ''__proto__'' then obj else AList.update k v obj)"

definition getProp :: "jsobject \<Rightarrow> string \<Rightarrow> string option" where
  "getProp obj k = map_of obj k"

definition parseHeaderLine :: "jsobject \<Rightarrow> string \<Rightarrow> jsobject" where
  "parseHeaderLine headers line =
     (case indexOf line '':'' 0 of
        None \<Rightarrow> headers
      | Some colonIndex \<Rightarrow>
          let key = toLowerCase (trim (take colonIndex line));
              val = trim (drop (colonIndex + 1) line)
          in setProp headers key val)"

definition parseHeaders :: "string \<Rightarrow> jsobject" where
  "parseHeaders headersText = foldl parseHeaderLine [] (splitCRLF headersText)"

text \<open>
  \<^verbatim>\<open>s.match(/key"([^"]+)"/)\<close> for a literal \<open>key\<close>: the first place where \<open>key\<close>, a double
  quote, a non-empty run of characters other than the double quote, and a double quote
  follow each other; the result is the run.
\<close>

fun matchQuoted :: "string \<Rightarrow> string \<Rightarrow> string option" where
  "matchQuoted key [] = None"
| "matchQuoted key (c # cs) =
     (if prefix (key @ [DQUOTE]) (c # cs) then
        let rest = drop (length key + 1) (c # cs);
            run = takeWhile (\<lambda>x. x \<noteq> DQUOTE) rest
        in if run \<noteq> [] \<and> length run < length rest then Some run else matchQuoted key cs
      else matchQuoted key cs)"

text \<open>
  The objects pushed to \<^verbatim>\<open>result.files\<close> and the result object itself. The property
  \<^verbatim>\<open>size\<close> is the field \<open>size_bytes\<close> and the property \<^verbatim>\<open>fields\<close> is the field
  \<open>textFields\<close>.
\<close>

record uploadedPart =
  fieldName :: string
  filename :: string
  contentType :: string
  content :: string
  size_bytes :: nat

record multipartResult =
  textFields :: jsobject
  files :: "uploadedPart list"

text \<open>A property read in a condition: \<^verbatim>\<open>undefined\<close> and the empty string are falsy.\<close>

definition truthy :: "string option \<Rightarrow> string option" where
  "truthy v = (case v of None \<Rightarrow> None | Some s \<Rightarrow> if s = [] then None else Some s)"

text \<open>
  The body of the \<^verbatim>\<open>while\<close> loop once a part has been cut out of the buffer: \<open>None\<close> is the
  source's \<^verbatim>\<open>continue\<close> (the part is skipped), \<open>Some\<close> carries the updated result.
\<close>

definition parsePart :: "string \<Rightarrow> multipartResult \<Rightarrow> multipartResult option" where
  "parsePart partBuffer result =
     (case indexOf partBuffer (CRLF @ CRLF) 0 of
        None \<Rightarrow> None
      | Some headerEndIndex \<Rightarrow>
          let headersBuffer = slice partBuffer 0 headerEndIndex;
              contentBuffer = sliceFromEnd partBuffer (headerEndIndex + 4) 2;
              headers = parseHeaders headersBuffer
          in case truthy (getProp headers ''content-disposition'') of
               None \<Rightarrow> None
             | Some disposition \<Rightarrow>
                 (case matchQuoted ''name='' disposition of
                    None \<Rightarrow> None
                  | Some fieldName' \<Rightarrow>
                      (case matchQuoted ''filename='' disposition of
                         Some filename' \<Rightarrow>
                           let contentType' =
                                 (case truthy (getProp headers ''content-type'') of
                                    Some t \<Rightarrow> t
                                  | None \<Rightarrow> ''application/octet-stream'')
                           in Some (result\<lparr>files := files result @
                                [\<lparr>fieldName = fieldName', filename = filename',
                                  contentType = contentType', content = contentBuffer,
                                  size_bytes = length contentBuffer\<rparr>]\<rparr>)
                       | None \<Rightarrow>
                           Some (result\<lparr>textFields :=
                                   setProp (textFields result) fieldName' contentBuffer\<rparr>))))"

lemma indexOfAt_bounds:
  "indexOfAt v xs i = Some j \<Longrightarrow> i \<le> j \<and> j + length v \<le> i + length xs"
proof (induction xs arbitrary: i)
  case Nil
  then show ?case by (simp split: if_splits)
next
  case (Cons x xs)
  show ?case
  proof (cases "prefix v (x # xs)")
    case True
    then have "length v \<le> length (x # xs)" by (rule prefix_length_le)
    with True Cons.prems show ?thesis by simp
  next
    case False
    with Cons.prems have "indexOfAt v xs (Suc i) = Some j" by simp
    from Cons.IH [OF this] show ?thesis by simp
  qed
qed

lemma indexOf_bounds:
  "indexOf buf v off = Some j \<Longrightarrow> off \<le> length buf \<or> v \<noteq> [] \<Longrightarrow>
     off \<le> j \<and> j + length v \<le> length buf"
  unfolding indexOf_def
  by (auto split: if_splits dest!: indexOfAt_bounds)

text \<open>
  The \<^verbatim>\<open>while\<close> loop of \<^verbatim>\<open>parseMultipart\<close>: \<open>position\<close> and \<open>result\<close> are its variables,
  \<open>boundaryBuffer\<close> is \<^verbatim>\<open>'--' + boundary\<close>. Every \<^verbatim>\<open>break\<close> returns the result.
\<close>

function parseLoop :: "string \<Rightarrow> string \<Rightarrow> nat \<Rightarrow> multipartResult \<Rightarrow> multipartResult" where
  "parseLoop buffer boundaryBuffer position result =
     (if position < length buffer then
        (case indexOf buffer boundaryBuffer position of
           None \<Rightarrow> result
         | Some boundaryIndex \<Rightarrow>
             (case indexOf buffer CRLF (boundaryIndex + length boundaryBuffer) of
                None \<Rightarrow> result
              | Some newlineIndex \<Rightarrow>
                  (case indexOf buffer boundaryBuffer (newlineIndex + 2) of
                     None \<Rightarrow> result
                   | Some nextBoundaryIndex \<Rightarrow>
                       (case parsePart (slice buffer (newlineIndex + 2) nextBoundaryIndex) result of
                          None \<Rightarrow> parseLoop buffer boundaryBuffer (newlineIndex + 2) result
                        | Some result' \<Rightarrow>
                            parseLoop buffer boundaryBuffer nextBoundaryIndex result'))))
      else result)"
  by pat_completeness auto
termination
proof (relation "measure (\<lambda>(buffer, boundaryBuffer, position, result). length buffer - position)")
  show "wf (measure (\<lambda>(buffer, boundaryBuffer, position, result). length buffer - position))"
    by simp
next
  fix buffer boundaryBuffer :: string and position boundaryIndex newlineIndex nextBoundaryIndex :: nat
    and result :: multipartResult
  assume "position < length buffer"
    and "indexOf buffer boundaryBuffer position = Some boundaryIndex"
    and "indexOf buffer CRLF (boundaryIndex + length boundaryBuffer) = Some newlineIndex"
  then have "position \<le> boundaryIndex" and "boundaryIndex \<le> newlineIndex"
    and "newlineIndex + 2 \<le> length buffer"
    using indexOf_bounds [of buffer boundaryBuffer position boundaryIndex]
      indexOf_bounds [of buffer CRLF "boundaryIndex + length boundaryBuffer" newlineIndex]
    by (simp_all add: CRLF_def)
  then show "((buffer, boundaryBuffer, newlineIndex + 2, result),
              (buffer, boundaryBuffer, position, result))
             \<in> measure (\<lambda>(buffer, boundaryBuffer, position, result). length buffer - position)"
    by simp
next
  fix buffer boundaryBuffer :: string and position boundaryIndex newlineIndex nextBoundaryIndex :: nat
    and result result' :: multipartResult
  assume "position < length buffer"
    and "indexOf buffer boundaryBuffer position = Some boundaryIndex"
    and "indexOf buffer CRLF (boundaryIndex + length boundaryBuffer) = Some newlineIndex"
    and "indexOf buffer boundaryBuffer (newlineIndex + 2) = Some nextBoundaryIndex"
  then have "position \<le> boundaryIndex" and "boundaryIndex \<le> newlineIndex"
    and "newlineIndex + 2 \<le> nextBoundaryIndex" and "newlineIndex + 2 \<le> length buffer"
    using indexOf_bounds [of buffer boundaryBuffer position boundaryIndex]
      indexOf_bounds [of buffer CRLF "boundaryIndex + length boundaryBuffer" newlineIndex]
      indexOf_bounds [of buffer boundaryBuffer "newlineIndex + 2" nextBoundaryIndex]
    by (simp_all add: CRLF_def)
  then show "((buffer, boundaryBuffer, nextBoundaryIndex, result'),
              (buffer, boundaryBuffer, position, result))
             \<in> measure (\<lambda>(buffer, boundaryBuffer, position, result). length buffer - position)"
    by simp
qed

definition parseMultipart :: "string \<Rightarrow> string \<Rightarrow> multipartResult" where
  "parseMultipart buffer boundary =
     parseLoop buffer (''--'' @ boundary) 0 \<lparr>textFields = [], files = []\<rparr>"

section \<open>PathResolver: \<^verbatim>\<open>sanitizePath\<close> and \<^verbatim>\<open>resolvePath\<close>\<close>

text \<open>\<^verbatim>\<open>s.replace(/^(\.\.[\/\\])+/, '')\<close>: every leading \<^verbatim>\<open>../\<close> and \<^verbatim>\<open>..\\<close> is removed.\<close>

fun stripLeadingDotDot :: "string \<Rightarrow> string" where
  "stripLeadingDotDot (a # b # c # rest) =
     (if a = CHR ''.'' \<and> b = CHR ''.'' \<and> isSep c then stripLeadingDotDot rest
      else a # b # c # rest)"
| "stripLeadingDotDot s = s"

text \<open>
  \<^verbatim>\<open>s.replace(/[\/\\]\.\.[\/\\]/g, '/')\<close>: the matches are found from left to right and do not
  overlap; the search goes on after the end of a match.
\<close>

fun collapseDotDot :: "string \<Rightarrow> string" where
  "collapseDotDot (a # b # c # d # rest) =
     (if isSep a \<and> b = CHR ''.'' \<and> c = CHR ''.'' \<and> isSep d then CHR ''/'' # collapseDotDot rest
      else a # collapseDotDot (b # c # d # rest))"
| "collapseDotDot (a # rest) = a # collapseDotDot rest"
| "collapseDotDot [] = []"

definition sanitizePath :: "string \<Rightarrow> string" where
  "sanitizePath userPath =
     (if userPath = [] then []
      else dropWhile isSep (collapseDotDot (stripLeadingDotDot (normalize userPath))))"

text \<open>
  The errors the service throws, by kind. \<open>HostError\<close> stands for an error of a filesystem
  call that the service does not catch.
\<close>

datatype error = AccessDenied | NotFound | InvalidName | Conflict | HostError

text \<open>
  \<^verbatim>\<open>ROOT_DIR = path.join(__dirname, 'files')\<close>; the directory of the module is a parameter.
  The functions of the service take the value of \<^verbatim>\<open>ROOT_DIR\<close> as their argument \<open>root\<close>.
\<close>

definition ROOT_DIR :: "string \<Rightarrow> string" where
  "ROOT_DIR moduleDir = join moduleDir ''files''"

definition resolvePath :: "string \<Rightarrow> string \<Rightarrow> error + string" where
  "resolvePath root relativePath =
     (let sanitized = sanitizePath relativePath;
          absolute = join root sanitized;
          normalized = normalize absolute
      in if \<not> prefix root normalized then Inl AccessDenied else Inr normalized)"

section \<open>The host filesystem\<close>

text \<open>
  The filesystem is the environment of the service, not repository code. It is modelled as
  an association list from paths, each a list of segments below \<^verbatim>\<open>/\<close>, to nodes. A file
  carries its content and its time stamp, a directory the size and the time stamp that
  \<^verbatim>\<open>stat\<close> reports. Symbolic links, permissions and the space on the device are not
  modelled, and the time stamp of a directory does not change when an entry is added to it
  or removed from it.
\<close>

datatype node = File (contents: string) (mtime: int) | Dir (dsize: int) (mtime: int)

type_synonym filesystem = "(string list \<times> node) list"

text \<open>The segments a path string denotes: empty segments and \<^verbatim>\<open>.\<close> vanish, \<^verbatim>\<open>..\<close> goes up.\<close>

definition pathKey :: "string \<Rightarrow> string list" where
  "pathKey p = normalizeString False (splitSlash p)"

text \<open>
  A path reaches the host in UTF-8. A character with a code below 128 is one byte there; a
  character with a code from 128 on (its highest bit \<open>digit7\<close> is set) is counted as two
  bytes, which is the length of its UTF-8 form when the characters of the string are the
  code units of a JavaScript string. For a string that holds the bytes of a UTF-8 text this
  counts too much and never too little.
\<close>

definition byteLength :: "string \<Rightarrow> nat" where
  "byteLength s = length s + length (filter digit7 s)"

text \<open>
  The limits of the host on names (Linux): a component of a path has at most \<open>NAME_MAX\<close>
  bytes, and a path with its terminating zero byte at most \<open>PATH_MAX\<close>. Every call that is
  given a longer path fails with \<^verbatim>\<open>ENAMETOOLONG\<close>.
\<close>

definition NAME_MAX :: nat where
  "NAME_MAX = 255"

definition PATH_MAX :: nat where
  "PATH_MAX = 4096"

definition nameTooLong :: "string \<Rightarrow> bool" where
  "nameTooLong p =
     (PATH_MAX \<le> byteLength p \<or> list_ex (\<lambda>s. NAME_MAX < byteLength s) (splitSlash p))"

text \<open>
  The node at a path, \<open>None\<close> when \<^verbatim>\<open>stat\<close> fails; a path with a trailing slash denotes a
  directory only.
\<close>

definition lookupNode :: "filesystem \<Rightarrow> string \<Rightarrow> node option" where
  "lookupNode fs p =
     (if nameTooLong p then None
      else
        (case map_of fs (pathKey p) of
           Some (File c t) \<Rightarrow> (if p \<noteq> [] \<and> isSlash (last p) then None else Some (File c t))
         | other \<Rightarrow> other))"

definition isDirNode :: "node option \<Rightarrow> bool" where
  "isDirNode n = (case n of Some (Dir s t) \<Rightarrow> True | _ \<Rightarrow> False)"

definition isFileNode :: "node option \<Rightarrow> bool" where
  "isFileNode n = (case n of Some (File c t) \<Rightarrow> True | _ \<Rightarrow> False)"

text \<open>\<^verbatim>\<open>fs.access\<close> without an error, and \<^verbatim>\<open>fsSync.existsSync\<close>.\<close>

definition existsSync :: "filesystem \<Rightarrow> string \<Rightarrow> bool" where
  "existsSync fs p = (lookupNode fs p \<noteq> None)"

text \<open>\<^verbatim>\<open>fs.readdir\<close>: the names of the entries of a directory, in the order of the host.\<close>

definition readdir :: "filesystem \<Rightarrow> string \<Rightarrow> error + string list" where
  "readdir fs p =
     (if isDirNode (lookupNode fs p)
      then Inr (map (\<lambda>kv. last (fst kv))
                  (filter (\<lambda>kv. fst kv \<noteq> [] \<and> butlast (fst kv) = pathKey p) fs))
      else Inl HostError)"

definition hasParentDir :: "filesystem \<Rightarrow> string list \<Rightarrow> bool" where
  "hasParentDir fs k = (k \<noteq> [] \<and> isDirNode (map_of fs (butlast k)))"

definition hasChildren :: "filesystem \<Rightarrow> string list \<Rightarrow> bool" where
  "hasChildren fs k = list_ex (\<lambda>kv. fst kv \<noteq> [] \<and> butlast (fst kv) = k) fs"

text \<open>
  \<^verbatim>\<open>fs.rename\<close>: the node and everything below it move to the new path. The source must
  exist, the new path must be within the limits on names, the parent of the target must be
  a directory, and the target must not lie inside the source. A file cannot be renamed to a
  path with a trailing slash. An existing target is replaced when both are files, or both
  are directories and the target is empty.
\<close>

definition rekey :: "string list \<Rightarrow> string list \<Rightarrow> string list \<times> node \<Rightarrow> string list \<times> node" where
  "rekey ko kn kv = (if prefix ko (fst kv) then (kn @ drop (length ko) (fst kv), snd kv) else kv)"

definition rename :: "filesystem \<Rightarrow> string \<Rightarrow> string \<Rightarrow> error + filesystem" where
  "rename fs old new =
     (let ko = pathKey old; kn = pathKey new
      in case lookupNode fs old of
           None \<Rightarrow> Inl HostError
         | Some src \<Rightarrow>
             if nameTooLong new then Inl HostError
             else if isFileNode (Some src) \<and> new \<noteq> [] \<and> isSlash (last new) then Inl HostError
             else if ko = [] then Inl HostError
             else if \<not> hasParentDir fs kn then Inl HostError
             else if ko = kn then Inr fs
             else if prefix ko kn then Inl HostError
             else (case map_of fs kn of
                     None \<Rightarrow> Inr (map (rekey ko kn) fs)
                   | Some tgt \<Rightarrow>
                       if (isFileNode (Some src) \<and> isFileNode (Some tgt))
                          \<or> (isDirNode (Some src) \<and> isDirNode (Some tgt) \<and> \<not> hasChildren fs kn)
                       then Inr (map (rekey ko kn) (AList.delete kn fs))
                       else Inl HostError))"

text \<open>\<^verbatim>\<open>fs.rm(p, {recursive: true, force: true})\<close>; a path that does not exist is no error.\<close>

definition rmRecursive :: "filesystem \<Rightarrow> string \<Rightarrow> error + filesystem" where
  "rmRecursive fs p =
     (if nameTooLong p then Inl HostError
      else Inr (filter (\<lambda>kv. \<not> prefix (pathKey p) (fst kv)) fs))"

text \<open>\<^verbatim>\<open>fs.unlink\<close>.\<close>

definition unlink :: "filesystem \<Rightarrow> string \<Rightarrow> error + filesystem" where
  "unlink fs p =
     (if isFileNode (lookupNode fs p) then Inr (AList.delete (pathKey p) fs) else Inl HostError)"

text \<open>
  \<^verbatim>\<open>fs.writeFile\<close>: creates the file or replaces its content. It fails when the path is
  beyond the limits on names, when the parent is not a directory, when the path is a
  directory, and when the path ends with a slash.
\<close>

definition writeFile :: "filesystem \<Rightarrow> string \<Rightarrow> string \<Rightarrow> int \<Rightarrow> error + filesystem" where
  "writeFile fs p c now =
     (let k = pathKey p
      in if nameTooLong p then Inl HostError
         else if p \<noteq> [] \<and> \<not> isSlash (last p) \<and> hasParentDir fs k \<and> \<not> isDirNode (map_of fs k)
         then Inr (AList.update k (File c now) fs)
         else Inl HostError)"

text \<open>
  \<^verbatim>\<open>fs.mkdir\<close> without options: the path must be within the limits on names, the parent
  must be a directory and the path must be free.
\<close>

definition mkdir :: "filesystem \<Rightarrow> string \<Rightarrow> int \<Rightarrow> error + filesystem" where
  "mkdir fs p now =
     (let k = pathKey p
      in if nameTooLong p then Inl HostError
         else if hasParentDir fs k \<and> map_of fs k = None
         then Inr (AList.update k (Dir 4096 now) fs)
         else Inl HostError)"

text \<open>\<^verbatim>\<open>fs.readFile\<close>.\<close>

definition readFile :: "filesystem \<Rightarrow> string \<Rightarrow> error + string" where
  "readFile fs p = (case lookupNode fs p of Some (File c t) \<Rightarrow> Inr c | _ \<Rightarrow> Inl HostError)"

section \<open>FileTreeService\<close>

datatype entryType = FileType | DirectoryType

text \<open>
  The objects of a listing. The fields stand for the properties \<^verbatim>\<open>name\<close>, \<^verbatim>\<open>path\<close>,
  \<^verbatim>\<open>type\<close>, \<^verbatim>\<open>size\<close>, \<^verbatim>\<open>modified\<close> and \<^verbatim>\<open>extension\<close> (absent on a directory); a listing
  that is returned has the property \<^verbatim>\<open>children\<close> when it is a directory.
\<close>

record entry =
  e_name :: string
  e_path :: string
  e_type :: entryType
  e_size :: int
  e_modified :: int
  e_extension :: "string option"

record listing = entry +
  e_children :: "entry list option"

text \<open>
  \<^verbatim>\<open>children.sort((a, b) => ...)\<close> with the comparison function of the source.
  \<^verbatim>\<open>String.prototype.localeCompare\<close> belongs to the runtime and is the parameter
  \<open>localeCompare\<close>. The sort of the runtime is stable; it is modelled by insertion.
\<close>

definition compareChildren :: "(string \<Rightarrow> string \<Rightarrow> int) \<Rightarrow> entry \<Rightarrow> entry \<Rightarrow> int" where
  "compareChildren localeCompare a b =
     (if e_type a = e_type b then localeCompare (e_name a) (e_name b)
      else if e_type a = DirectoryType then - 1 else 1)"

fun insertBy :: "('a \<Rightarrow> 'a \<Rightarrow> int) \<Rightarrow> 'a \<Rightarrow> 'a list \<Rightarrow> 'a list" where
  "insertBy cmp x [] = [x]"
| "insertBy cmp x (y # ys) = (if cmp x y \<le> 0 then x # y # ys else y # insertBy cmp x ys)"

definition sortBy :: "('a \<Rightarrow> 'a \<Rightarrow> int) \<Rightarrow> 'a list \<Rightarrow> 'a list" where
  "sortBy cmp xs = foldr (insertBy cmp) xs []"

text \<open>The body of the loop over the directory entries: one child, or none when \<^verbatim>\<open>stat\<close> fails.\<close>

definition childEntry :: "filesystem \<Rightarrow> string \<Rightarrow> string \<Rightarrow> string \<Rightarrow> entry option" where
  "childEntry fs relativePath absolutePath entryName =
     (let entryRelPath = join relativePath entryName;
          entryAbsPath = join absolutePath entryName
      in case lookupNode fs entryAbsPath of
           None \<Rightarrow> None
         | Some (Dir s t) \<Rightarrow>
             Some \<lparr>e_name = entryName, e_path = entryRelPath, e_type = DirectoryType,
                   e_size = 0, e_modified = t, e_extension = None\<rparr>
         | Some (File c t) \<Rightarrow>
             Some \<lparr>e_name = entryName, e_path = entryRelPath, e_type = FileType,
                   e_size = int (length c), e_modified = t, e_extension = Some (extname entryName)\<rparr>)"

definition listFiles ::
  "(string \<Rightarrow> string \<Rightarrow> int) \<Rightarrow> string \<Rightarrow> filesystem \<Rightarrow> string \<Rightarrow> error + listing" where
  "listFiles localeCompare root fs relativePath =
     (case resolvePath root relativePath of
        Inl e \<Rightarrow> Inl e
      | Inr absolutePath \<Rightarrow>
          (case lookupNode fs absolutePath of
             None \<Rightarrow> Inl NotFound
           | Some stats \<Rightarrow>
               let nm = (if basename1 absolutePath = [] then ''files'' else basename1 absolutePath);
                   relPath = (if relativePath = [] then ''/'' else relativePath)
               in (case stats of
                     File c t \<Rightarrow>
                       Inr \<lparr>e_name = nm, e_path = relPath, e_type = FileType, e_size = int (length c),
                            e_modified = t, e_extension = Some (extname nm), e_children = None\<rparr>
                   | Dir s t \<Rightarrow>
                       (case readdir fs absolutePath of
                          Inl e \<Rightarrow> Inl e
                        | Inr entries \<Rightarrow>
                            Inr \<lparr>e_name = nm, e_path = relPath, e_type = DirectoryType,
                                 e_size = s, e_modified = t, e_extension = None,
                                 e_children =
                                   Some (sortBy (compareChildren localeCompare)
                                     (List.map_filter
                                        (childEntry fs relativePath absolutePath) entries))\<rparr>))))"

record renameResult =
  rn_message :: string
  rn_oldPath :: string
  rn_newPath :: string
  rn_newName :: string

definition renameFile ::
  "string \<Rightarrow> filesystem \<Rightarrow> string \<Rightarrow> string \<Rightarrow> error + (filesystem \<times> renameResult)" where
  "renameFile root fs oldRelativePath newName =
     (case resolvePath root oldRelativePath of
        Inl e \<Rightarrow> Inl e
      | Inr oldAbsolutePath \<Rightarrow>
          if \<not> existsSync fs oldAbsolutePath then Inl NotFound
          else if \<not> isValidFileName newName then Inl InvalidName
          else
            let directory = dirname oldAbsolutePath;
                newAbsolutePath = join directory newName
            in if existsSync fs newAbsolutePath then Inl Conflict
               else (case rename fs oldAbsolutePath newAbsolutePath of
                       Inl e \<Rightarrow> Inl e
                     | Inr fs' \<Rightarrow>
                         let oldDir = dirname oldRelativePath;
                             newRelativePath = join oldDir newName
                         in Inr (fs', \<lparr>rn_message = ''Renombrado exitosamente'',
                                       rn_oldPath = oldRelativePath,
                                       rn_newPath = newRelativePath,
                                       rn_newName = newName\<rparr>)))"

record deleteResult =
  del_message :: string
  del_path :: string
  del_type :: entryType

definition deleteFile ::
  "string \<Rightarrow> filesystem \<Rightarrow> string \<Rightarrow> error + (filesystem \<times> deleteResult)" where
  "deleteFile root fs relativePath =
     (case resolvePath root relativePath of
        Inl e \<Rightarrow> Inl e
      | Inr absolutePath \<Rightarrow>
          (case lookupNode fs absolutePath of
             None \<Rightarrow> Inl NotFound
           | Some stats \<Rightarrow>
               (case (if isDirNode (Some stats) then rmRecursive fs absolutePath
                      else unlink fs absolutePath) of
                  Inl e \<Rightarrow> Inl e
                | Inr fs' \<Rightarrow>
                    Inr (fs', \<lparr>del_message = ''Eliminado exitosamente'',
                                del_path = relativePath,
                                del_type = (if isDirNode (Some stats) then DirectoryType
                                            else FileType)\<rparr>))))"

text \<open>\<^verbatim>\<open>getMimeType\<close>: the table of the source, by lower-case extension.\<close>

definition mimeTypes :: "(string \<times> string) list" where
  "mimeTypes =
     [(''.txt'', ''text/plain''), (''.html'', ''text/html''), (''.css'', ''text/css''),
      (''.js'', ''application/javascript''), (''.json'', ''application/json''),
      (''.xml'', ''application/xml''), (''.csv'', ''text/csv''),
      (''.jpg'', ''image/jpeg''), (''.jpeg'', ''image/jpeg''), (''.png'', ''image/png''),
      (''.gif'', ''image/gif''), (''.bmp'', ''image/bmp''), (''.webp'', ''image/webp''),
      (''.svg'', ''image/svg+xml''), (''.ico'', ''image/x-icon''),
      (''.pdf'', ''application/pdf''), (''.doc'', ''application/msword''),
      (''.docx'', ''application/vnd.openxmlformats-officedocument.wordprocessingml.document''),
      (''.xls'', ''application/vnd.ms-excel''),
      (''.xlsx'', ''application/vnd.openxmlformats-officedocument.spreadsheetml.sheet''),
      (''.ppt'', ''application/vnd.ms-powerpoint''),
      (''.pptx'', ''application/vnd.openxmlformats-officedocument.presentationml.presentation''),
      (''.zip'', ''application/zip''), (''.rar'', ''application/x-rar-compressed''),
      (''.7z'', ''application/x-7z-compressed''), (''.tar'', ''application/x-tar''),
      (''.gz'', ''application/gzip''),
      (''.mp3'', ''audio/mpeg''), (''.wav'', ''audio/wav''), (''.ogg'', ''audio/ogg''),
      (''.mp4'', ''video/mp4''), (''.avi'', ''video/x-msvideo''), (''.mov'', ''video/quicktime''),
      (''.wmv'', ''video/x-ms-wmv''),
      (''.ttf'', ''font/ttf''), (''.woff'', ''font/woff''), (''.woff2'', ''font/woff2'')]"

definition getMimeType :: "string \<Rightarrow> string" where
  "getMimeType fname =
     (case map_of mimeTypes (toLowerCase (extname fname)) of
        Some t \<Rightarrow> t
      | None \<Rightarrow> ''application/octet-stream'')"

record downloadResult =
  dl_content :: string
  dl_fileName :: string
  dl_mimeType :: string

definition downloadFile :: "string \<Rightarrow> filesystem \<Rightarrow> string \<Rightarrow> error + downloadResult" where
  "downloadFile root fs relativePath =
     (case resolvePath root relativePath of
        Inl e \<Rightarrow> Inl e
      | Inr absolutePath \<Rightarrow>
          if \<not> isFileNode (lookupNode fs absolutePath) then Inl NotFound
          else (case readFile fs absolutePath of
                  Inl e \<Rightarrow> Inl e
                | Inr c \<Rightarrow>
                    Inr \<lparr>dl_content = c, dl_fileName = basename1 absolutePath,
                         dl_mimeType = getMimeType (basename1 absolutePath)\<rparr>))"

text \<open>An integer in decimal, as the template string prints \<^verbatim>\<open>Date.now()\<close>.\<close>

function showDigits :: "int \<Rightarrow> string" where
  "showDigits n =
     (if n < 10 then [''0123456789'' ! nat n]
      else showDigits (n div 10) @ [''0123456789'' ! nat (n mod 10)])"
  by pat_completeness auto
termination
  by (relation "measure nat") auto

definition showNumber :: "int \<Rightarrow> string" where
  "showNumber n = (if n < 0 then ''-'' @ showDigits (- n) else showDigits n)"

text \<open>
  The values that \<^verbatim>\<open>Date.now()\<close> can return are the time values of the language: integers
  of a magnitude up to 8.64e15. A template string prints such a number in decimal, without
  an exponent.
\<close>

definition isTimeValue :: "int \<Rightarrow> bool" where
  "isTimeValue t = (- 8640000000000000 \<le> t \<and> t \<le> 8640000000000000)"

record uploadResult =
  up_message :: string
  up_filename :: string
  up_path :: string
  up_size :: nat

text \<open>\<^verbatim>\<open>uploadFile\<close>; \<open>now\<close> is the value of \<^verbatim>\<open>Date.now()\<close>.\<close>

definition uploadFile ::
  "string \<Rightarrow> int \<Rightarrow> filesystem \<Rightarrow> uploadedPart \<Rightarrow> string
     \<Rightarrow> error + (filesystem \<times> uploadResult)" where
  "uploadFile root now fs file targetRelativePath =
     (if \<not> isValidFileName (filename file) then Inl InvalidName
      else
        (case resolvePath root targetRelativePath of
           Inl e \<Rightarrow> Inl e
         | Inr targetDir \<Rightarrow>
             if \<not> isDirNode (lookupNode fs targetDir) then Inl NotFound
             else
               let filePath = join targetDir (filename file)
               in if existsSync fs filePath then
                    let ext = extname (filename file);
                        nameWithoutExt = basename (filename file) ext;
                        newFilename = nameWithoutExt @ ''_'' @ showNumber now @ ext;
                        newFilePath = join targetDir newFilename
                    in (case writeFile fs newFilePath (content file) now of
                          Inl e \<Rightarrow> Inl e
                        | Inr fs' \<Rightarrow>
                            Inr (fs', \<lparr>up_message =
                                          ''Archivo subido (renombrado para evitar duplicados)'',
                                        up_filename = newFilename,
                                        up_path = join targetRelativePath newFilename,
                                        up_size = length (content file)\<rparr>))
                  else
                    (case writeFile fs filePath (content file) now of
                       Inl e \<Rightarrow> Inl e
                     | Inr fs' \<Rightarrow>
                         Inr (fs', \<lparr>up_message = ''Archivo subido exitosamente'',
                                     up_filename = filename file,
                                     up_path = join targetRelativePath (filename file),
                                     up_size = length (content file)\<rparr>))))"

record folderResult =
  mk_message :: string
  mk_path :: string
  mk_name :: string

definition createFolder ::
  "string \<Rightarrow> int \<Rightarrow> filesystem \<Rightarrow> string \<Rightarrow> string \<Rightarrow> error + (filesystem \<times> folderResult)" where
  "createFolder root now fs relativePath folderName =
     (case resolvePath root relativePath of
        Inl e \<Rightarrow> Inl e
      | Inr parentDir \<Rightarrow>
          let newFolderPath = join parentDir folderName
          in if \<not> isValidFileName folderName then Inl InvalidName
             else if existsSync fs newFolderPath then Inl Conflict
             else (case mkdir fs newFolderPath now of
                     Inl e \<Rightarrow> Inl e
                   | Inr fs' \<Rightarrow>
                       Inr (fs', \<lparr>mk_message = ''Carpeta creada exitosamente'',
                                   mk_path = join relativePath folderName,
                                   mk_name = folderName\<rparr>)))"

section \<open>A model of \<^verbatim>\<open>localeCompare\<close> and the example filesystem\<close>

text \<open>
  \<^verbatim>\<open>String.prototype.localeCompare\<close> compares by the collation of the runtime's locale. The
  model below takes from the root collation what matters for names of ASCII letters and
  digits: letters sort after digits, digits after all other characters; letters are
  compared without regard to case first, and only when two names agree in this way does
  case decide, the lower-case letter first. Characters that are neither letters nor digits
  are ordered among themselves by their codes, which is a simplification.
\<close>

definition isUpperChar :: "char \<Rightarrow> bool" where
  "isUpperChar c = (c \<in> set ''ABCDEFGHIJKLMNOPQRSTUVWXYZ'')"

definition isLowerChar :: "char \<Rightarrow> bool" where
  "isLowerChar c = (c \<in> set ''abcdefghijklmnopqrstuvwxyz'')"

definition isDigitChar :: "char \<Rightarrow> bool" where
  "isDigitChar c = (c \<in> set ''0123456789'')"

definition primaryWeight :: "char \<Rightarrow> nat \<times> nat" where
  "primaryWeight c =
     (if isUpperChar c \<or> isLowerChar c then (2, of_char (toLowerChar c))
      else if isDigitChar c then (1, of_char c)
      else (0, of_char c))"

definition tertiaryWeight :: "char \<Rightarrow> nat" where
  "tertiaryWeight c = (if isUpperChar c then 1 else 0)"

definition collationKey :: "string \<Rightarrow> (nat \<times> nat) list \<times> nat list" where
  "collationKey s = (map primaryWeight s, map tertiaryWeight s)"

definition localeCompareASCII :: "string \<Rightarrow> string \<Rightarrow> int" where
  "localeCompareASCII a b =
     (if collationKey a < collationKey b then - 1
      else if collationKey a = collationKey b then 0
      else 1)"

text \<open>
  The comparison the specification names: case-sensitive and ordinal, that is by the codes
  of the characters.
\<close>

definition spec_ordinalLess :: "string \<Rightarrow> string \<Rightarrow> bool" where
  "spec_ordinalLess a b = (map (of_char :: char \<Rightarrow> nat) a < map of_char b)"

text \<open>
  A filesystem for the examples. The module lives in \<^verbatim>\<open>/srv/app/server\<close>, so the root
  directory is \<^verbatim>\<open>/srv/app/server/files\<close>. It holds the directory \<^verbatim>\<open>docs\<close> with the entries
  \<^verbatim>\<open>b.txt\<close>, \<^verbatim>\<open>A\<close> (a directory) and \<^verbatim>\<open>a.txt\<close>, and the directory \<^verbatim>\<open>mixed\<close> with the files
  \<^verbatim>\<open>B.txt\<close>, \<^verbatim>\<open>a.txt\<close> and \<^verbatim>\<open>con.txt\<close>. Beside the root directory lies \<^verbatim>\<open>files2\<close> with
  \<^verbatim>\<open>secret.txt\<close>.
\<close>

definition exampleRoot :: string where
  "exampleRoot = ROOT_DIR ''/srv/app/server''"

definition exampleFs :: filesystem where
  "exampleFs =
     [([], Dir 4096 1),
      ([''srv''], Dir 4096 1),
      ([''srv'', ''app''], Dir 4096 1),
      ([''srv'', ''app'', ''server''], Dir 4096 1),
      ([''srv'', ''app'', ''server'', ''files''], Dir 4096 1),
      ([''srv'', ''app'', ''server'', ''files'', ''docs''], Dir 4096 2),
      ([''srv'', ''app'', ''server'', ''files'', ''docs'', ''b.txt''], File ''bee'' 3),
      ([''srv'', ''app'', ''server'', ''files'', ''docs'', ''A''], Dir 4096 4),
      ([''srv'', ''app'', ''server'', ''files'', ''docs'', ''a.txt''], File ''hello'' 5),
      ([''srv'', ''app'', ''server'', ''files'', ''mixed''], Dir 4096 6),
      ([''srv'', ''app'', ''server'', ''files'', ''mixed'', ''B.txt''], File ''B'' 7),
      ([''srv'', ''app'', ''server'', ''files'', ''mixed'', ''a.txt''], File ''a'' 8),
      ([''srv'', ''app'', ''server'', ''files'', ''mixed'', ''con.txt''], File ''c'' 9),
      ([''srv'', ''app'', ''server'', ''files2''], Dir 4096 1),
      ([''srv'', ''app'', ''server'', ''files2'', ''secret.txt''], File ''s3cret'' 1)]"

text \<open>The relative path \<^verbatim>\<open>\..\../files2\<close> and the path of \<^verbatim>\<open>secret.txt\<close> below it.\<close>

definition escapingPath :: string where
  "escapingPath = [BSLASH] @ ''..'' @ [BSLASH] @ ''../files2''"

definition escapingFile :: string where
  "escapingFile = escapingPath @ ''/secret.txt''"

section \<open>Properties of NameValidator\<close>

text \<open>
  The reserved device names as the specification lists them; \<open>reservedNames\<close> above is the
  regular expression of the source.
\<close>

definition spec_deviceNames :: "string list" where
  "spec_deviceNames =
     [''CON'', ''PRN'', ''AUX'', ''NUL'',
      ''COM1'', ''COM2'', ''COM3'', ''COM4'', ''COM5'', ''COM6'', ''COM7'', ''COM8'', ''COM9'',
      ''LPT1'', ''LPT2'', ''LPT3'', ''LPT4'', ''LPT5'', ''LPT6'', ''LPT7'', ''LPT8'', ''LPT9'']"

lemma lastComponent_plain:
  assumes "\<forall>c \<in> set n. \<not> isSlash c"
  shows "lastComponent n = n"
proof -
  from assms have "dropWhile isSlash (rev n) = rev n"
    by (cases "rev n") (auto simp: dropWhile_eq_self_iff)
  moreover from assms have "takeWhile (\<lambda>c. \<not> isSlash c) (rev n) = rev n"
    by simp
  ultimately have "takeWhile (\<lambda>c. \<not> isSlash c) (dropWhile isSlash (rev n)) = rev n"
    by simp
  then show ?thesis by (simp add: lastComponent_def)
qed

lemma extname_stem_ext:
  assumes "stem \<noteq> []" and "stem \<noteq> ''.''" and "\<forall>c \<in> set stem. \<not> isSlash c"
    and "\<forall>c \<in> set e. \<not> isSlash c \<and> c \<noteq> CHR ''.''"
  shows "extname (stem @ CHR ''.'' # e) = CHR ''.'' # e"
proof -
  let ?n = "stem @ CHR ''.'' # e"
  have lc: "lastComponent ?n = ?n"
    using assms by (intro lastComponent_plain) (auto simp: isSlash_def)
  have tw: "takeWhile (\<lambda>c. c \<noteq> CHR ''.'') (rev ?n) = rev e"
    using assms(4) by (simp add: takeWhile_tail)
  have ne: "?n \<noteq> ''..''"
  proof
    assume "?n = ''..''"
    then show False using assms(1,2) by (cases stem; cases e) (auto simp: Cons_eq_append_conv)
  qed
  show ?thesis
    using assms(1) ne by (simp add: extname_def lc tw Let_def del: rev_append rev.simps)
qed

lemma basename_stem_ext:
  assumes "stem \<noteq> []" and "\<forall>c \<in> set stem. \<not> isSlash c"
    and "\<forall>c \<in> set e. \<not> isSlash c"
  shows "basename (stem @ CHR ''.'' # e) (CHR ''.'' # e) = stem"
proof -
  let ?n = "stem @ CHR ''.'' # e"
  have lc: "lastComponent ?n = ?n"
    using assms by (intro lastComponent_plain) (auto simp: isSlash_def)
  have sf: "suffix (CHR ''.'' # e) ?n" by (simp add: suffix_def)
  show ?thesis
    using assms(1) sf by (simp add: basename_def lc Let_def)
qed

lemma extname_no_dot: "CHR ''.'' \<notin> set (lastComponent n) \<Longrightarrow> extname n = []"
  by (simp add: extname_def Let_def)

lemma basename_empty_suffix: "basename n [] = lastComponent n"
  by (simp add: basename_def Let_def)

lemma toLowerChar_not_slash_dot:
  "toLowerChar c = CHR ''/'' \<longleftrightarrow> c = CHR ''/''"
  "toLowerChar c = CHR ''.'' \<longleftrightarrow> c = CHR ''.''"
  by (auto simp: toLowerChar_def split: if_splits)

lemma toLowerCase_no_slash_dot:
  assumes "\<forall>c \<in> set (toLowerCase s). c \<noteq> CHR ''/'' \<and> c \<noteq> CHR ''.''"
  shows "\<forall>c \<in> set s. c \<noteq> CHR ''/'' \<and> c \<noteq> CHR ''.''"
proof
  fix c assume "c \<in> set s"
  then have "toLowerChar c \<in> set (toLowerCase s)" by (simp add: toLowerCase_def)
  with assms have "toLowerChar c \<noteq> CHR ''/'' \<and> toLowerChar c \<noteq> CHR ''.''" by blast
  then show "c \<noteq> CHR ''/'' \<and> c \<noteq> CHR ''.''"
    by (simp add: toLowerChar_not_slash_dot)
qed

lemma deviceName_lower:
  "map toLowerCase spec_deviceNames =
     [''con'', ''prn'', ''aux'', ''nul'',
      ''com1'', ''com2'', ''com3'', ''com4'', ''com5'', ''com6'', ''com7'', ''com8'', ''com9'',
      ''lpt1'', ''lpt2'', ''lpt3'', ''lpt4'', ''lpt5'', ''lpt6'', ''lpt7'', ''lpt8'', ''lpt9'']"
  by code_simp

lemma reservedNames_lower: "reservedNames s = reservedNames (toLowerCase s)"
proof -
  have "toLowerChar (toLowerChar c) = toLowerChar c" for c
    by (auto simp: toLowerChar_def split: if_splits)
  then have "toLowerCase (toLowerCase s) = toLowerCase s"
    by (simp add: toLowerCase_def)
  then show ?thesis by (simp add: reservedNames_def)
qed

lemma lower_reserved: "\<forall>l \<in> set (map toLowerCase spec_deviceNames). reservedNames l"
  unfolding deviceName_lower by code_simp

lemma lower_chars:
  "\<forall>l \<in> set (map toLowerCase spec_deviceNames).
     l \<noteq> [] \<and> (\<forall>c \<in> set l. c \<noteq> CHR ''/'' \<and> c \<noteq> CHR ''.'')"
  unfolding deviceName_lower by code_simp

lemma deviceName_reserved:
  assumes "toLowerCase stem \<in> set (map toLowerCase spec_deviceNames)"
  shows "reservedNames stem"
  using bspec [OF lower_reserved assms] reservedNames_lower [of stem] by simp

lemma deviceName_chars:
  assumes "toLowerCase stem \<in> set (map toLowerCase spec_deviceNames)"
  shows "stem \<noteq> [] \<and> stem \<noteq> ''.'' \<and> (\<forall>c \<in> set stem. \<not> isSlash c \<and> c \<noteq> CHR ''.'')"
proof -
  from bspec [OF lower_chars assms] have l: "toLowerCase stem \<noteq> []"
    and c: "\<forall>c \<in> set (toLowerCase stem). c \<noteq> CHR ''/'' \<and> c \<noteq> CHR ''.''"
    by (rule conjunct1, rule conjunct2)
  from toLowerCase_no_slash_dot [OF c]
  have c': "\<forall>c \<in> set stem. c \<noteq> CHR ''/'' \<and> c \<noteq> CHR ''.''" .
  from l have ne: "stem \<noteq> []" by (simp add: toLowerCase_def)
  have "stem \<noteq> ''.''"
  proof
    assume "stem = ''.''"
    then have "CHR ''.'' \<in> set stem" by simp
    with c' show False by blast
  qed
  with ne c' show ?thesis by (simp add: isSlash_def)
qed

lemma valid_not_reserved: "isValidFileName n \<Longrightarrow> \<not> reservedNames (basename n (extname n))"
  by (simp add: isValidFileName_def split: if_splits)

lemma deviceName_rejected:
  assumes "toLowerCase stem \<in> set (map toLowerCase spec_deviceNames)"
  shows "\<not> isValidFileName stem"
proof
  assume v: "isValidFileName stem"
  from deviceName_chars [OF assms] have lc: "lastComponent stem = stem"
    and nd: "CHR ''.'' \<notin> set stem"
    by (auto intro: lastComponent_plain)
  then have "basename stem (extname stem) = stem"
    by (simp add: extname_no_dot basename_empty_suffix)
  with valid_not_reserved [OF v] deviceName_reserved [OF assms] show False by simp
qed

lemma deviceName_ext_rejected:
  assumes "toLowerCase stem \<in> set (map toLowerCase spec_deviceNames)"
    and "\<forall>x \<in> set e. x \<noteq> CHR ''/'' \<and> x \<noteq> CHR ''.''"
  shows "\<not> isValidFileName (stem @ CHR ''.'' # e)"
proof
  assume v: "isValidFileName (stem @ CHR ''.'' # e)"
  from deviceName_chars [OF assms(1)] have s: "stem \<noteq> []" "stem \<noteq> ''.''"
    "\<forall>c \<in> set stem. \<not> isSlash c"
    by auto
  from assms(2) have e: "\<forall>c \<in> set e. \<not> isSlash c \<and> c \<noteq> CHR ''.''"
    by (simp add: isSlash_def)
  have "basename (stem @ CHR ''.'' # e) (extname (stem @ CHR ''.'' # e)) = stem"
    using s e by (simp add: extname_stem_ext basename_stem_ext)
  with valid_not_reserved [OF v] deviceName_reserved [OF assms(1)] show False by simp
qed

lemma long_rejected: "255 < length a \<Longrightarrow> \<not> isValidFileName a"
  by (auto simp: isValidFileName_def)

lemma invalidChar_rejected:
  assumes "c \<in> set b"
    and "(of_char c :: nat) \<le> 0x1F \<or> c \<in> set ''<>:|?*'' \<or> c = DQUOTE"
  shows "\<not> isValidFileName b"
proof -
  from assms(2) have "invalidChar c" unfolding invalidChar_def by blast
  with assms(1) have "list_ex invalidChar b" unfolding list_ex_iff by blast
  then show ?thesis by (simp add: isValidFileName_def)
qed

lemma onlyDots_rejected:
  assumes "d \<noteq> []" and "\<forall>x \<in> set d. x = CHR ''.''"
  shows "\<not> isValidFileName d"
proof -
  from assms have "onlyDots d" by (simp add: onlyDots_def list_all_iff)
  then show ?thesis by (simp add: isValidFileName_def)
qed

lemma isValidFileName_examples:
  "\<not> isValidFileName ''CON'' \<and> \<not> isValidFileName ''con.txt'' \<and> \<not> isValidFileName []
     \<and> \<not> isValidFileName (replicate 300 (CHR ''a'')) \<and> \<not> isValidFileName ''a<b.txt''
     \<and> \<not> isValidFileName ''...'' \<and> isValidFileName ''report_final.pdf''"
proof -
  have "\<not> isValidFileName (replicate 300 (CHR ''a''))" by (simp add: long_rejected)
  moreover have "\<not> isValidFileName ''CON''" by code_simp
  moreover have "\<not> isValidFileName ''con.txt''" by code_simp
  moreover have "\<not> isValidFileName []" by code_simp
  moreover have "\<not> isValidFileName ''a<b.txt''" by code_simp
  moreover have "\<not> isValidFileName ''...''" by code_simp
  moreover have "isValidFileName ''report_final.pdf''" by code_simp
  ultimately show ?thesis by blast
qed

text \<open>
  Claim C6. \<open>isValidFileName\<close> rejects the empty name, every name longer than 255
  characters, every name with a control character (code up to \<^verbatim>\<open>0x1F\<close>) or one of
  \<^verbatim>\<open>< > : " | ? *\<close>, every reserved device name in any letter case, alone or followed by a dot
  and an extension, every name whose \<open>basename\<close> without its \<open>extname\<close> matches the reserved
  expression of the source, and every name that consists of dots only. It rejects
  \<^verbatim>\<open>CON\<close>, \<^verbatim>\<open>con.txt\<close>, the empty name, a name of 300 characters, \<^verbatim>\<open>a<b.txt\<close> and \<^verbatim>\<open>...\<close>, and it
  accepts \<^verbatim>\<open>report_final.pdf\<close>.
\<close>

theorem isValidFileName_rejects:
  "\<not> isValidFileName []
   \<and> (255 < length a \<longrightarrow> \<not> isValidFileName a)
   \<and> (c \<in> set b \<and> ((of_char c :: nat) \<le> 0x1F \<or> c \<in> set ''<>:|?*'' \<or> c = DQUOTE)
        \<longrightarrow> \<not> isValidFileName b)
   \<and> (toLowerCase stem \<in> set (map toLowerCase spec_deviceNames)
        \<and> (\<forall>x \<in> set e. x \<noteq> CHR ''/'' \<and> x \<noteq> CHR ''.'')
        \<longrightarrow> \<not> isValidFileName stem \<and> \<not> isValidFileName (stem @ CHR ''.'' # e))
   \<and> (reservedNames (basename n (extname n)) \<longrightarrow> \<not> isValidFileName n)
   \<and> (d \<noteq> [] \<and> (\<forall>x \<in> set d. x = CHR ''.'') \<longrightarrow> \<not> isValidFileName d)
   \<and> \<not> isValidFileName ''CON'' \<and> \<not> isValidFileName ''con.txt''
   \<and> \<not> isValidFileName (replicate 300 (CHR ''a'')) \<and> \<not> isValidFileName ''a<b.txt''
   \<and> \<not> isValidFileName ''...'' \<and> isValidFileName ''report_final.pdf''"
proof -
  have "\<not> isValidFileName []" by (simp add: isValidFileName_def)
  moreover have "255 < length a \<longrightarrow> \<not> isValidFileName a"
    using long_rejected by blast
  moreover have "c \<in> set b \<and> ((of_char c :: nat) \<le> 0x1F \<or> c \<in> set ''<>:|?*'' \<or> c = DQUOTE)
        \<longrightarrow> \<not> isValidFileName b"
    using invalidChar_rejected [of c b] by blast
  moreover have "toLowerCase stem \<in> set (map toLowerCase spec_deviceNames)
        \<and> (\<forall>x \<in> set e. x \<noteq> CHR ''/'' \<and> x \<noteq> CHR ''.'')
        \<longrightarrow> \<not> isValidFileName stem \<and> \<not> isValidFileName (stem @ CHR ''.'' # e)"
    using deviceName_rejected [of stem] deviceName_ext_rejected [of stem e] by blast
  moreover have "reservedNames (basename n (extname n)) \<longrightarrow> \<not> isValidFileName n"
    using valid_not_reserved by blast
  moreover have "d \<noteq> [] \<and> (\<forall>x \<in> set d. x = CHR ''.'') \<longrightarrow> \<not> isValidFileName d"
    using onlyDots_rejected [of d] by blast
  ultimately show ?thesis using isValidFileName_examples by blast
qed

theorem isValidFileName_rejects_witness:
  "\<not> isValidFileName (replicate 256 (CHR ''x'')) \<and> \<not> isValidFileName ''a|b''
   \<and> \<not> isValidFileName ''Lpt3'' \<and> \<not> isValidFileName ''Lpt3.tar''
   \<and> \<not> isValidFileName ''aux.h'' \<and> \<not> isValidFileName ''....''"
proof -
  have h1: "255 < length (replicate 256 (CHR ''x''))" by simp
  have h2: "CHR ''|'' \<in> set ''a|b'' \<and> ((of_char (CHR ''|'') :: nat) \<le> 0x1F
              \<or> CHR ''|'' \<in> set ''<>:|?*'' \<or> CHR ''|'' = DQUOTE)"
    by simp
  have h3: "toLowerCase ''Lpt3'' \<in> set (map toLowerCase spec_deviceNames)
              \<and> (\<forall>x \<in> set ''tar''. x \<noteq> CHR ''/'' \<and> x \<noteq> CHR ''.'')"
    by code_simp
  have h4: "reservedNames (basename ''aux.h'' (extname ''aux.h''))" by code_simp
  have h5: "''....'' \<noteq> [] \<and> (\<forall>x \<in> set ''....''. x = CHR ''.'')" by simp
  note r = isValidFileName_rejects
    [of "replicate 256 (CHR ''x'')" "CHR ''|''" "''a|b''" "''Lpt3''" "''tar''" "''aux.h''" "''....''"]
  note r2 = r [THEN conjunct2]
  note r3 = r2 [THEN conjunct2]
  note r4 = r3 [THEN conjunct2]
  note r5 = r4 [THEN conjunct2]
  note r6 = r5 [THEN conjunct2]
  from r2 [THEN conjunct1, THEN mp, OF h1]
  have a: "\<not> isValidFileName (replicate 256 (CHR ''x''))" .
  from r3 [THEN conjunct1, THEN mp, OF h2]
  have b: "\<not> isValidFileName ''a|b''" .
  from r4 [THEN conjunct1, THEN mp, OF h3]
  have c: "\<not> isValidFileName ''Lpt3'' \<and> \<not> isValidFileName (''Lpt3'' @ CHR ''.'' # ''tar'')" .
  from r5 [THEN conjunct1, THEN mp, OF h4]
  have d: "\<not> isValidFileName ''aux.h''" .
  from r6 [THEN conjunct1, THEN mp, OF h5]
  have e: "\<not> isValidFileName ''....''" .
  from c have c1: "\<not> isValidFileName ''Lpt3''" and c2: "\<not> isValidFileName ''Lpt3.tar''"
    by simp_all
  from a b c1 c2 d e show ?thesis by (intro conjI)
qed

text \<open>
  Claim C8. Names with a separator pass the validator: \<^verbatim>\<open>a/b\<close>, \<^verbatim>\<open>../evil\<close> and a name with a
  backslash are valid. Such a name has more than one segment, and joined to a directory it
  denotes a path that is not a child of that directory.
\<close>

theorem isValidFileName_accepts_separators:
  "isValidFileName ''a/b'' \<and> isValidFileName ''../evil''
   \<and> isValidFileName (''a'' @ [BSLASH] @ ''b'')
   \<and> splitSlash ''a/b'' = [''a'', ''b'']
   \<and> join ''/srv/files/docs'' ''a/b'' = ''/srv/files/docs/a/b''
   \<and> join ''/srv/files/docs'' ''../evil'' = ''/srv/files/evil''"
  by code_simp

section \<open>Properties of MultipartDecoder\<close>



lemma indexOfAt_None_drop: "indexOfAt v xs i = None \<Longrightarrow> indexOfAt v (drop k xs) j = None"
proof (induction xs arbitrary: i k j)
  case Nil
  then show ?case by (simp split: if_splits)
next
  case (Cons x xs)
  from Cons.prems have np: "\<not> prefix v (x # xs)" and r: "indexOfAt v xs (Suc i) = None"
    by (auto split: if_splits)
  show ?case
  proof (cases k)
    case 0
    from Cons.IH [OF r, of 0 "Suc j"] np show ?thesis using 0 by simp
  next
    case (Suc k')
    from Cons.IH [OF r, of k' j] show ?thesis using Suc by simp
  qed
qed

lemma indexOfAt_None_nonempty: "indexOfAt v xs i = None \<Longrightarrow> v \<noteq> []"
  by (cases xs) (auto split: if_splits)

lemma indexOf_None_mono:
  assumes "indexOf buf v off = None" and "off \<le> off'"
  shows "indexOf buf v off' = None"
proof (cases "length buf < off")
  case True
  with assms show ?thesis by (auto simp: indexOf_def split: if_splits)
next
  case False
  with assms(1) have n: "indexOfAt v (drop off buf) off = None" by (simp add: indexOf_def)
  show ?thesis
  proof (cases "length buf < off'")
    case True
    with indexOfAt_None_nonempty [OF n] show ?thesis by (simp add: indexOf_def)
  next
    case False
    have "drop off' buf = drop (off' - off) (drop off buf)" using assms(2) by simp
    with indexOfAt_None_drop [OF n, of "off' - off" off'] False show ?thesis
      by (simp add: indexOf_def)
  qed
qed

text \<open>
  Claim C9. When the scan of the loop finds a delimiter at \<open>i\<close> and the buffer has no
  delimiter from the end of that occurrence on, the loop returns the result it had:
  whatever follows the last delimiter, a complete part included, reaches neither the
  fields nor the files.
\<close>

theorem final_part_discarded:
  assumes "indexOf buffer boundaryBuffer position = Some i"
    and "indexOf buffer boundaryBuffer (i + length boundaryBuffer) = None"
  shows "parseLoop buffer boundaryBuffer position result = result"
proof (cases "indexOf buffer CRLF (i + length boundaryBuffer)")
  case None
  with assms(1) show ?thesis by (subst parseLoop.simps) simp
next
  case (Some n)
  have "boundaryBuffer \<noteq> []"
    using assms(2) by (auto simp: indexOf_def dest: indexOfAt_None_nonempty split: if_splits)
  then have "i + length boundaryBuffer \<le> n + 2"
    using indexOf_bounds [OF Some] by (simp add: CRLF_def)
  with assms(2) have "indexOf buffer boundaryBuffer (n + 2) = None"
    by (rule indexOf_None_mono)
  with assms(1) Some show ?thesis by (subst parseLoop.simps) simp
qed

text \<open>
  A buffer whose only delimiter is followed by a complete file part and by no closing
  delimiter.
\<close>

definition unterminatedBuffer :: string where
  "unterminatedBuffer =
     ''--XYZ'' @ CRLF
     @ ''Content-Disposition: form-data; name='' @ [DQUOTE] @ ''files'' @ [DQUOTE]
     @ ''; filename='' @ [DQUOTE] @ ''a.txt'' @ [DQUOTE] @ CRLF
     @ CRLF @ ''hello'' @ CRLF"

theorem final_part_discarded_witness:
  "indexOf unterminatedBuffer ''--XYZ'' 0 = Some 0
   \<and> indexOf unterminatedBuffer ''--XYZ'' (0 + length ''--XYZ'') = None
   \<and> parseMultipart unterminatedBuffer ''XYZ'' = \<lparr>textFields = [], files = []\<rparr>"
proof -
  have h1: "indexOf unterminatedBuffer ''--XYZ'' 0 = Some 0" by code_simp
  have h2: "indexOf unterminatedBuffer ''--XYZ'' (0 + length ''--XYZ'') = None" by code_simp
  from final_part_discarded [OF h1 h2, of "\<lparr>textFields = [], files = []\<rparr>"] h1 h2
  show ?thesis by (simp add: parseMultipart_def)
qed

text \<open>
  Claim C10. \<open>parseLoop\<close> is a total function: the position grows with every iteration
  and stays within the buffer, which is its termination proof above, and no step of the
  loop can raise. So \<open>parseMultipart\<close> returns a result for every buffer and boundary, and
  for a buffer without the delimiter \<^verbatim>\<open>'--' + boundary\<close> the result has no field and no file.
\<close>

theorem parseMultipart_no_delimiter:
  assumes "indexOf buffer (''--'' @ boundary) 0 = None"
  shows "parseMultipart buffer boundary = \<lparr>textFields = [], files = []\<rparr>"
  unfolding parseMultipart_def using assms by (subst parseLoop.simps) simp

theorem parseMultipart_no_delimiter_witness:
  "indexOf ''hello world'' (''--'' @ ''XYZ'') 0 = None
   \<and> parseMultipart ''hello world'' ''XYZ'' = \<lparr>textFields = [], files = []\<rparr>"
proof -
  have h: "indexOf ''hello world'' (''--'' @ ''XYZ'') 0 = None" by code_simp
  from parseMultipart_no_delimiter [OF h] h show ?thesis by simp
qed

section \<open>Properties of PathResolver\<close>

text \<open>
  Claim C2, at an input where the code fails it. The root directory is
  \<^verbatim>\<open>/srv/app/server/files\<close>. For the relative path \<^verbatim>\<open>\..\../files2/secret.txt\<close>,
  \<open>normalize\<close> leaves the string as it is (a backslash is no separator), the second
  replacement of \<open>sanitizePath\<close> turns \<^verbatim>\<open>\..\\<close> into a slash, and the result
  \<^verbatim>\<open>../files2/secret.txt\<close> is joined to the root. The check of \<open>resolvePath\<close> compares
  strings, and \<^verbatim>\<open>/srv/app/server/files2/secret.txt\<close> starts with the root's string: the path
  is returned, although it lies beside the root directory and not in it. The same holds
  with a leading \<^verbatim>\<open>../\<close>, and \<open>downloadFile\<close> returns the content of that file.
\<close>

theorem resolvePath_escapes_root:
  "exampleRoot = ''/srv/app/server/files''
   \<and> resolvePath exampleRoot escapingFile = Inr ''/srv/app/server/files2/secret.txt''
   \<and> resolvePath exampleRoot (''../'' @ escapingFile) = Inr ''/srv/app/server/files2/secret.txt''
   \<and> map_sum id dl_content (downloadFile exampleRoot exampleFs escapingFile) = Inr ''s3cret''"
  by code_simp

section \<open>Properties of the listing\<close>

definition childNames :: "error + listing \<Rightarrow> string list option" where
  "childNames r = (case r of Inl e \<Rightarrow> None | Inr l \<Rightarrow> map_option (map e_name) (e_children l))"

text \<open>The name \<^verbatim>\<open>..\..\<close>, which is one segment and passes the validator.\<close>

definition dotdotName :: string where
  "dotdotName = ''..'' @ [BSLASH] @ ''..''"

text \<open>
  Claim C1, at inputs where the code fails it. Listing the relative path \<^verbatim>\<open>\..\../files2\<close>
  succeeds and returns that string as \<^verbatim>\<open>path\<close>; resolved again it gives
  \<^verbatim>\<open>/srv/app/server/files2\<close>, which is not at or below the root directory (the defect of
  claim C2). Renaming \<^verbatim>\<open>docs\<close> to \<^verbatim>\<open>..\..\<close> succeeds and returns \<^verbatim>\<open>..\..\<close> as the new path;
  resolved again it fails with \<open>AccessDenied\<close>.
\<close>

theorem result_path_resolves_outside_root:
  "map_sum id e_path (listFiles localeCompareASCII exampleRoot exampleFs escapingPath)
     = Inr escapingPath
   \<and> resolvePath exampleRoot escapingPath = Inr ''/srv/app/server/files2''
   \<and> exampleRoot = ''/srv/app/server/files''
   \<and> map_sum id (rn_newPath \<circ> snd) (renameFile exampleRoot exampleFs ''docs'' dotdotName)
       = Inr dotdotName
   \<and> resolvePath exampleRoot dotdotName = Inl AccessDenied"
  by code_simp

lemma insertBy_sorted:
  assumes total: "\<forall>a b. cmp a b \<le> 0 \<or> cmp b a \<le> 0"
    and trans: "\<forall>a b c. cmp a b \<le> 0 \<longrightarrow> cmp b c \<le> 0 \<longrightarrow> cmp a c \<le> 0"
    and "sorted_wrt (\<lambda>a b. cmp a b \<le> 0) ys"
  shows "sorted_wrt (\<lambda>a b. cmp a b \<le> (0::int)) (insertBy cmp x ys)
         \<and> set (insertBy cmp x ys) = insert x (set ys)"
  using assms(3)
proof (induction ys)
  case Nil
  then show ?case by simp
next
  case (Cons y ys)
  show ?case
  proof (cases "cmp x y \<le> 0")
    case True
    have "\<forall>z \<in> set ys. cmp x z \<le> 0"
    proof
      fix z assume "z \<in> set ys"
      with Cons.prems have "cmp y z \<le> 0" by simp
      with True trans show "cmp x z \<le> 0" by blast
    qed
    with True Cons.prems show ?thesis by simp
  next
    case False
    with total have yx: "cmp y x \<le> 0" by blast
    from Cons.prems have "sorted_wrt (\<lambda>a b. cmp a b \<le> 0) ys" by simp
    from Cons.IH [OF this] have ih: "sorted_wrt (\<lambda>a b. cmp a b \<le> 0) (insertBy cmp x ys)"
      and st: "set (insertBy cmp x ys) = insert x (set ys)"
      by simp_all
    from Cons.prems have "\<forall>z \<in> set ys. cmp y z \<le> 0" by simp
    with yx st have "\<forall>z \<in> set (insertBy cmp x ys). cmp y z \<le> 0" by simp
    with ih st False show ?thesis by auto
  qed
qed

lemma sortBy_sorted:
  assumes total: "\<forall>a b. cmp a b \<le> 0 \<or> cmp b a \<le> 0"
    and trans: "\<forall>a b c. cmp a b \<le> 0 \<longrightarrow> cmp b c \<le> 0 \<longrightarrow> cmp a c \<le> 0"
  shows "sorted_wrt (\<lambda>a b. cmp a b \<le> (0::int)) (sortBy cmp xs)"
proof (induction xs)
  case Nil
  then show ?case by (simp add: sortBy_def)
next
  case (Cons x xs)
  then have "sorted_wrt (\<lambda>a b. cmp a b \<le> 0) (foldr (insertBy cmp) xs [])"
    by (simp add: sortBy_def)
  from insertBy_sorted [OF total trans this, of x] show ?case
    by (simp add: sortBy_def)
qed

lemma compareChildren_total:
  assumes "\<forall>a b. lc a b \<le> 0 \<or> lc b a \<le> (0::int)"
  shows "\<forall>a b. compareChildren lc a b \<le> 0 \<or> compareChildren lc b a \<le> 0"
proof (intro allI)
  fix a b :: entry
  show "compareChildren lc a b \<le> 0 \<or> compareChildren lc b a \<le> 0"
  proof (cases "e_type a = e_type b")
    case True
    with assms show ?thesis by (simp add: compareChildren_def)
  next
    case False
    then show ?thesis
      by (cases "e_type a"; cases "e_type b") (simp_all add: compareChildren_def)
  qed
qed

lemma compareChildren_trans:
  assumes "\<forall>a b c. lc a b \<le> 0 \<longrightarrow> lc b c \<le> 0 \<longrightarrow> lc a c \<le> (0::int)"
  shows "\<forall>a b c. compareChildren lc a b \<le> 0 \<longrightarrow> compareChildren lc b c \<le> 0
           \<longrightarrow> compareChildren lc a c \<le> 0"
proof (intro allI impI)
  fix a b c :: entry
  assume ab: "compareChildren lc a b \<le> 0" and bc: "compareChildren lc b c \<le> 0"
  show "compareChildren lc a c \<le> 0"
  proof (cases "e_type a = e_type b \<and> e_type b = e_type c")
    case True
    with ab bc have "lc (e_name a) (e_name b) \<le> 0" and "lc (e_name b) (e_name c) \<le> 0"
      by (simp_all add: compareChildren_def)
    with assms have "lc (e_name a) (e_name c) \<le> 0" by blast
    with True show ?thesis by (simp add: compareChildren_def)
  next
    case False
    with ab bc show ?thesis
      by (cases "e_type a"; cases "e_type b"; cases "e_type c")
        (simp_all add: compareChildren_def)
  qed
qed

lemma listFiles_children:
  assumes "listFiles lc root fs relativePath = Inr l" and "e_children l = Some cs"
  shows "\<exists>xs. cs = sortBy (compareChildren lc) xs"
  using assms unfolding listFiles_def
  by (auto simp: Let_def split: sum.splits option.splits node.splits)

lemma localeCompareASCII_le:
  "localeCompareASCII a b \<le> 0 \<longleftrightarrow> collationKey a \<le> collationKey b"
  by (auto simp: localeCompareASCII_def)

lemma localeCompareASCII_total:
  "\<forall>a b. localeCompareASCII a b \<le> 0 \<or> localeCompareASCII b a \<le> 0"
  unfolding localeCompareASCII_le by (simp add: linear)

lemma localeCompareASCII_trans:
  "\<forall>a b c. localeCompareASCII a b \<le> 0 \<longrightarrow> localeCompareASCII b c \<le> 0
     \<longrightarrow> localeCompareASCII a c \<le> 0"
  unfolding localeCompareASCII_le by auto

text \<open>
  Claim C3, as the code has it. The comparison of names is \<^verbatim>\<open>localeCompare\<close>, whatever the
  runtime makes of it, as long as it is a total preorder. In the children of a listing
  every directory stands before every file, and two children of the same type stand in the
  order of \<^verbatim>\<open>localeCompare\<close> on their names. A directory with the entries \<^verbatim>\<open>b.txt\<close>, \<^verbatim>\<open>A\<close>
  (a directory) and \<^verbatim>\<open>a.txt\<close> is listed as \<^verbatim>\<open>A\<close>, \<^verbatim>\<open>a.txt\<close>, \<^verbatim>\<open>b.txt\<close>.
\<close>

theorem listFiles_children_order:
  assumes total: "\<forall>a b. localeCompare a b \<le> 0 \<or> localeCompare b a \<le> 0"
    and trans: "\<forall>a b c. localeCompare a b \<le> 0 \<longrightarrow> localeCompare b c \<le> 0
                  \<longrightarrow> localeCompare a c \<le> 0"
    and lst: "listFiles localeCompare root fs relativePath = Inr l"
    and ch: "e_children l = Some cs"
    and ij: "i < j" "j < length cs"
  shows "(e_type (cs ! j) = DirectoryType \<longrightarrow> e_type (cs ! i) = DirectoryType)
         \<and> (e_type (cs ! i) = e_type (cs ! j)
              \<longrightarrow> localeCompare (e_name (cs ! i)) (e_name (cs ! j)) \<le> 0)
         \<and> childNames (listFiles localeCompareASCII exampleRoot exampleFs ''docs'')
              = Some [''A'', ''a.txt'', ''b.txt'']"
proof -
  from listFiles_children [OF lst ch] obtain xs
    where cs: "cs = sortBy (compareChildren localeCompare) xs" ..
  have "sorted_wrt (\<lambda>a b. compareChildren localeCompare a b \<le> 0) cs"
    unfolding cs
    by (rule sortBy_sorted [OF compareChildren_total [OF total] compareChildren_trans [OF trans]])
  with ij have le: "compareChildren localeCompare (cs ! i) (cs ! j) \<le> 0"
    by (simp add: sorted_wrt_iff_nth_less)
  have a: "e_type (cs ! j) = DirectoryType \<longrightarrow> e_type (cs ! i) = DirectoryType"
    using le by (cases "e_type (cs ! i)") (auto simp: compareChildren_def split: if_splits)
  have b: "e_type (cs ! i) = e_type (cs ! j)
             \<longrightarrow> localeCompare (e_name (cs ! i)) (e_name (cs ! j)) \<le> 0"
    using le by (auto simp: compareChildren_def)
  have c: "childNames (listFiles localeCompareASCII exampleRoot exampleFs ''docs'')
             = Some [''A'', ''a.txt'', ''b.txt'']"
    by code_simp
  from a b c show ?thesis by blast
qed

text \<open>The listing of the directory \<^verbatim>\<open>mixed\<close> of the example filesystem.\<close>

definition mixedChildren :: "entry list" where
  "mixedChildren =
     [\<lparr>e_name = ''a.txt'', e_path = ''mixed/a.txt'', e_type = FileType, e_size = 1,
        e_modified = 8, e_extension = Some ''.txt''\<rparr>,
      \<lparr>e_name = ''B.txt'', e_path = ''mixed/B.txt'', e_type = FileType, e_size = 1,
        e_modified = 7, e_extension = Some ''.txt''\<rparr>,
      \<lparr>e_name = ''con.txt'', e_path = ''mixed/con.txt'', e_type = FileType, e_size = 1,
        e_modified = 9, e_extension = Some ''.txt''\<rparr>]"

definition mixedListing :: listing where
  "mixedListing =
     \<lparr>e_name = ''mixed'', e_path = ''mixed'', e_type = DirectoryType, e_size = 4096,
      e_modified = 6, e_extension = None, e_children = Some mixedChildren\<rparr>"

theorem listFiles_children_order_witness:
  "listFiles localeCompareASCII exampleRoot exampleFs ''mixed'' = Inr mixedListing
   \<and> e_children mixedListing = Some mixedChildren
   \<and> e_type (mixedChildren ! 0) = e_type (mixedChildren ! 1)
   \<and> localeCompareASCII ''a.txt'' ''B.txt'' \<le> 0"
proof -
  have lst: "listFiles localeCompareASCII exampleRoot exampleFs ''mixed'' = Inr mixedListing"
    by code_simp
  have ch: "e_children mixedListing = Some mixedChildren"
    by (simp add: mixedListing_def)
  have ij: "(0::nat) < 1" "1 < length mixedChildren"
    by (simp_all add: mixedChildren_def)
  have ty: "e_type (mixedChildren ! 0) = e_type (mixedChildren ! 1)"
    by (simp add: mixedChildren_def)
  have nm: "e_name (mixedChildren ! 0) = ''a.txt''" "e_name (mixedChildren ! 1) = ''B.txt''"
    by (simp_all add: mixedChildren_def)
  from listFiles_children_order
    [OF localeCompareASCII_total localeCompareASCII_trans lst ch ij]
  have "e_type (mixedChildren ! 0) = e_type (mixedChildren ! 1)
          \<longrightarrow> localeCompareASCII (e_name (mixedChildren ! 0)) (e_name (mixedChildren ! 1)) \<le> 0"
    by (rule conjunct2 [THEN conjunct1])
  with ty nm have "localeCompareASCII ''a.txt'' ''B.txt'' \<le> 0" by simp
  with lst ch ty show ?thesis by (intro conjI)
qed

text \<open>
  Claim C3 as it is written fails: the files \<^verbatim>\<open>B.txt\<close> and \<^verbatim>\<open>a.txt\<close> are listed with \<^verbatim>\<open>a.txt\<close>
  first, while \<^verbatim>\<open>B.txt\<close> is the smaller name in the ordinal comparison.
\<close>

theorem listFiles_not_ordinal:
  "childNames (listFiles localeCompareASCII exampleRoot exampleFs ''mixed'')
     = Some [''a.txt'', ''B.txt'', ''con.txt'']
   \<and> spec_ordinalLess ''B.txt'' ''a.txt''"
  by code_simp

section \<open>Properties of rename and delete\<close>

text \<open>The names of the children of \<open>listedPath\<close> after a rename in the example filesystem.\<close>

definition renamedThenListed :: "string \<Rightarrow> string \<Rightarrow> string \<Rightarrow> string list option" where
  "renamedThenListed oldRelativePath newName listedPath =
     (case renameFile exampleRoot exampleFs oldRelativePath newName of
        Inl e \<Rightarrow> None
      | Inr r \<Rightarrow> childNames (listFiles localeCompareASCII exampleRoot (fst r) listedPath))"

text \<open>
  Claim C7, at inputs where the code fails it. The directory \<^verbatim>\<open>docs\<close> lists \<^verbatim>\<open>A\<close>, \<^verbatim>\<open>a.txt\<close>
  and \<^verbatim>\<open>b.txt\<close>. The new name \<^verbatim>\<open>A/c.txt\<close> passes the validator, the rename of \<^verbatim>\<open>docs/a.txt\<close>
  succeeds, and afterwards \<^verbatim>\<open>docs\<close> lists \<^verbatim>\<open>A\<close> and \<^verbatim>\<open>b.txt\<close>: the child is gone from the
  listing under every name and has moved into the directory \<^verbatim>\<open>A\<close>. With the new name
  \<^verbatim>\<open>../../evil.txt\<close> the file moves out of the root directory.
\<close>

theorem rename_to_name_with_separator:
  "isValidFileName ''A/c.txt''
   \<and> childNames (listFiles localeCompareASCII exampleRoot exampleFs ''docs'')
       = Some [''A'', ''a.txt'', ''b.txt'']
   \<and> renamedThenListed ''docs/a.txt'' ''A/c.txt'' ''docs'' = Some [''A'', ''b.txt'']
   \<and> renamedThenListed ''docs/a.txt'' ''A/c.txt'' ''docs/A'' = Some [''c.txt'']
   \<and> isValidFileName ''../../evil.txt''
   \<and> renamedThenListed ''docs/a.txt'' ''../../evil.txt'' ''docs'' = Some [''A'', ''b.txt'']
   \<and> map_sum id (\<lambda>r. lookupNode (fst r) ''/srv/app/server/evil.txt'')
        (renameFile exampleRoot exampleFs ''docs/a.txt'' ''../../evil.txt'')
       = Inr (Some (File ''hello'' 5))"
  by code_simp

section \<open>Properties of upload\<close>

text \<open>A segment that \<open>normalizeString\<close> keeps as it is.\<close>

definition cleanSegment :: "string \<Rightarrow> bool" where
  "cleanSegment s = (s \<noteq> [] \<and> s \<noteq> ''.'' \<and> s \<noteq> ''..'' \<and> list_all (\<lambda>c. \<not> isSlash c) s)"

text \<open>The name that \<open>uploadFile\<close> stores on a collision.\<close>

definition adjustedName :: "string \<Rightarrow> int \<Rightarrow> string" where
  "adjustedName f now = basename f (extname f) @ ''_'' @ showNumber now @ extname f"

text \<open>The uploaded parts of the examples.\<close>

definition uploadedA :: uploadedPart where
  "uploadedA = \<lparr>fieldName = ''files'', filename = ''a.txt'', contentType = ''text/plain'',
                 content = ''new'', size_bytes = 3\<rparr>"

definition uploadedCon :: uploadedPart where
  "uploadedCon = \<lparr>fieldName = ''files'', filename = ''con.txt'', contentType = ''text/plain'',
                   content = ''new'', size_bytes = 3\<rparr>"

definition uploadedOld :: uploadedPart where
  "uploadedOld = \<lparr>fieldName = ''files'', filename = ''.._1700000000000'',
                   contentType = ''text/plain'', content = ''old'', size_bytes = 3\<rparr>"

definition uploadedTrick :: uploadedPart where
  "uploadedTrick = \<lparr>fieldName = ''files'', filename = ''.._1700000000000/x/..'',
                     contentType = ''text/plain'', content = ''new'', size_bytes = 3\<rparr>"

text \<open>A name of 242 characters, and the part that uploads a file of that name.\<close>

definition longName :: string where
  "longName = replicate 242 (CHR ''a'')"

definition uploadedLong :: uploadedPart where
  "uploadedLong = \<lparr>fieldName = ''files'', filename = longName, contentType = ''text/plain'',
                    content = ''new'', size_bytes = 3\<rparr>"

lemma consHead_nonempty: "consHead c ls \<noteq> []"
  by (cases ls) simp_all

lemma splitSlash_nonempty: "splitSlash p \<noteq> []"
  by (induction p) (simp_all add: consHead_nonempty)

lemma consHead_append: "ls \<noteq> [] \<Longrightarrow> consHead c (ls @ ms) = consHead c ls @ ms"
  by (cases ls) simp_all

lemma splitSlash_append:
  "splitSlash (a @ CHR ''/'' # b) = splitSlash a @ splitSlash b"
proof (induction a)
  case Nil
  show ?case by (simp add: isSlash_def)
next
  case (Cons c a)
  then show ?case by (simp add: consHead_append splitSlash_nonempty)
qed

lemma splitSlash_plain:
  "list_all (\<lambda>c. \<not> isSlash c) n \<Longrightarrow> splitSlash n = [n]"
  by (induction n) simp_all

lemma joinSlash_snoc:
  "joinSlash (xs @ [n]) = (if xs = [] then n else joinSlash xs @ CHR ''/'' # n)"
  by (induction xs rule: joinSlash.induct) simp_all

lemma splitSlash_joinSlash:
  assumes "segs \<noteq> []" and "list_all (\<lambda>s. list_all (\<lambda>c. \<not> isSlash c) s) segs"
  shows "splitSlash (joinSlash segs) = segs"
  using assms
proof (induction segs rule: joinSlash.induct)
  case 1
  then show ?case by simp
next
  case (2 s)
  then show ?case by (simp add: splitSlash_plain)
next
  case (3 s t ss)
  then show ?case by (simp add: splitSlash_append splitSlash_plain)
qed

lemma cleanSegment_step: "cleanSegment s \<Longrightarrow> normalizeStep a acc s = s # acc"
  by (simp add: cleanSegment_def)

lemma foldl_clean:
  "list_all cleanSegment segs \<Longrightarrow> foldl (normalizeStep a) acc segs = rev segs @ acc"
  by (induction segs arbitrary: acc) (simp_all add: cleanSegment_step del: normalizeStep.simps)

lemma step_keeps_clean:
  assumes "list_all cleanSegment acc" and "list_all (\<lambda>c. \<not> isSlash c) s"
  shows "list_all cleanSegment (normalizeStep False acc s)"
proof (cases "s = [] \<or> s = ''.''")
  case True
  with assms show ?thesis by auto
next
  case False
  note nf = this
  show ?thesis
  proof (cases "s = ''..''")
    case True
    with assms(1) show ?thesis by (cases acc) auto
  next
    case False
    with nf assms(2) have "cleanSegment s" by (simp add: cleanSegment_def)
    with assms(1) show ?thesis by (simp add: cleanSegment_step del: normalizeStep.simps)
  qed
qed

lemma splitSlash_no_slash: "list_all (\<lambda>s. list_all (\<lambda>c. \<not> isSlash c) s) (splitSlash p)"
proof (induction p)
  case Nil
  show ?case by simp
next
  case (Cons c p)
  then show ?case by (cases "splitSlash p") (simp_all add: splitSlash_nonempty)
qed

lemma foldl_keeps_clean:
  assumes "list_all cleanSegment acc"
    and "list_all (\<lambda>s. list_all (\<lambda>c. \<not> isSlash c) s) segs"
  shows "list_all cleanSegment (foldl (normalizeStep False) acc segs)"
  using assms
proof (induction segs arbitrary: acc)
  case Nil
  then show ?case by simp
next
  case (Cons s segs)
  from Cons.prems have "list_all cleanSegment (normalizeStep False acc s)"
    by (intro step_keeps_clean) simp_all
  with Cons.prems Cons.IH [of "normalizeStep False acc s"] show ?case
    by (simp del: normalizeStep.simps)
qed

lemma pathKey_clean: "list_all cleanSegment (pathKey p)"
  unfolding pathKey_def normalizeString_def
  using foldl_keeps_clean [of "[]" "splitSlash p"] splitSlash_no_slash [of p]
  by simp

lemma clean_no_slash:
  "list_all cleanSegment segs \<Longrightarrow> list_all (\<lambda>s. list_all (\<lambda>c. \<not> isSlash c) s) segs"
  by (induction segs) (simp_all add: cleanSegment_def)

lemma joinSlash_nonempty:
  "segs \<noteq> [] \<Longrightarrow> list_all cleanSegment segs \<Longrightarrow> joinSlash segs \<noteq> []"
  by (induction segs rule: joinSlash.induct) (simp_all add: cleanSegment_def)

lemma normalizeString_clean: "list_all cleanSegment segs \<Longrightarrow> normalizeString a segs = segs"
  by (simp add: normalizeString_def foldl_clean)

lemma normalizeString_drop_empty:
  "normalizeString a ([] # segs) = normalizeString a segs"
  "normalizeString a (segs @ [[]]) = normalizeString a segs"
  by (simp_all add: normalizeString_def)

text \<open>A normalized absolute path denotes the segments of the path it came from.\<close>

lemma pathKey_normalize:
  assumes "q \<noteq> []" and "isSlash (hd q)"
  shows "pathKey (normalize q) = pathKey q"
proof -
  let ?segs = "normalizeString False (splitSlash q)"
  have cl: "list_all cleanSegment ?segs"
    using pathKey_clean [of q] by (simp add: pathKey_def)
  show ?thesis
  proof (cases "?segs = []")
    case True
    then have "normalize q = ''/''"
      using assms by (simp add: normalize_def Let_def)
    moreover have "pathKey ''/'' = []" by code_simp
    ultimately show ?thesis using True by (simp add: pathKey_def)
  next
    case False
    then have ne: "joinSlash ?segs \<noteq> []" using cl by (rule joinSlash_nonempty)
    have sp: "splitSlash (joinSlash ?segs) = ?segs"
      using False clean_no_slash [OF cl] by (rule splitSlash_joinSlash)
    have a: "splitSlash (CHR ''/'' # joinSlash ?segs) = [] # ?segs"
      using sp by (simp add: isSlash_def)
    have b: "splitSlash (CHR ''/'' # joinSlash ?segs @ ''/'') = [] # ?segs @ [[]]"
      using splitSlash_append [of "CHR ''/'' # joinSlash ?segs" "[]"] a by simp
    have "pathKey (normalize q) = normalizeString False ?segs"
    proof (cases "isSlash (last q)")
      case True
      with assms ne have "normalize q = CHR ''/'' # joinSlash ?segs @ ''/''"
        by (simp add: normalize_def Let_def)
      then show ?thesis
        using b normalizeString_drop_empty [of False]
        by (metis append_Cons pathKey_def)
    next
      case False
      with assms ne have "normalize q = CHR ''/'' # joinSlash ?segs"
        by (simp add: normalize_def Let_def)
      then show ?thesis
        using a normalizeString_drop_empty [of False] by (simp add: pathKey_def)
    qed
    with cl show ?thesis by (simp add: normalizeString_clean pathKey_def)
  qed
qed

lemma pathKey_snoc:
  assumes "cleanSegment n"
  shows "pathKey (d @ CHR ''/'' # n) = pathKey d @ [n]"
proof -
  from assms have "splitSlash n = [n]" by (simp add: cleanSegment_def splitSlash_plain)
  then have "splitSlash (d @ CHR ''/'' # n) = splitSlash d @ [n]"
    by (simp add: splitSlash_append)
  then show ?thesis
    using assms
    by (simp add: pathKey_def normalizeString_def cleanSegment_step del: normalizeStep.simps)
qed

text \<open>Joining a clean segment to an absolute directory path adds the segment.\<close>

lemma pathKey_join:
  assumes "d \<noteq> []" and "isSlash (hd d)" and "cleanSegment n"
  shows "pathKey (join d n) = pathKey d @ [n]"
proof -
  from assms(3) have "n \<noteq> []" by (simp add: cleanSegment_def)
  with assms(1) have "join d n = normalize (d @ CHR ''/'' # n)" by (simp add: join_def)
  moreover have "pathKey (normalize (d @ CHR ''/'' # n)) = pathKey (d @ CHR ''/'' # n)"
    using assms(1,2) by (intro pathKey_normalize) simp_all
  ultimately show ?thesis using assms(3) by (simp add: pathKey_snoc)
qed

lemma join_no_trailing_slash:
  assumes "d \<noteq> []" and "isSlash (hd d)" and "cleanSegment n"
  shows "join d n \<noteq> [] \<and> \<not> isSlash (last (join d n))"
proof -
  let ?q = "d @ CHR ''/'' # n"
  let ?segs = "normalizeString False (splitSlash ?q)"
  from assms(3) have n: "n \<noteq> []" "\<not> isSlash (last n)"
    by (auto simp: cleanSegment_def list_all_iff)
  have segs: "?segs = pathKey d @ [n]"
    using pathKey_snoc [OF assms(3), of d] by (simp add: pathKey_def)
  have cl: "list_all cleanSegment ?segs"
    using pathKey_clean [of ?q] by (simp add: pathKey_def)
  have ne: "joinSlash ?segs \<noteq> []"
    using segs cl by (intro joinSlash_nonempty) simp_all
  have lastq: "last ?q = last n" using n by simp
  have "join d n = normalize ?q" using assms(1) n by (simp add: join_def)
  also have "\<dots> = CHR ''/'' # joinSlash ?segs"
    using assms(1,2) ne n lastq by (simp add: normalize_def Let_def)
  finally have j: "join d n = CHR ''/'' # joinSlash (pathKey d @ [n])" using segs by simp
  have "last (joinSlash (pathKey d @ [n])) = last n"
    using n by (simp add: joinSlash_snoc)
  with j n ne segs show ?thesis by simp
qed

lemma extname_suffix:
  "suffix (extname p) (lastComponent p) \<and> extname p \<noteq> lastComponent p \<or> extname p = []"
proof (cases "CHR ''.'' \<in> set (lastComponent p)")
  case False
  then show ?thesis by (simp add: extname_def)
next
  case True
  let ?comp = "lastComponent p"
  let ?e = "rev (takeWhile (\<lambda>c. c \<noteq> CHR ''.'') (rev ?comp))"
  from True have "CHR ''.'' \<in> set (rev ?comp)" by simp
  then have dw: "dropWhile (\<lambda>c. c \<noteq> CHR ''.'') (rev ?comp) \<noteq> []"
    by (simp add: dropWhile_eq_Nil_conv)
  then have hd: "hd (dropWhile (\<lambda>c. c \<noteq> CHR ''.'') (rev ?comp)) = CHR ''.''"
    using hd_dropWhile [of "\<lambda>c. c \<noteq> CHR ''.''" "rev ?comp"] by simp
  obtain r where r: "dropWhile (\<lambda>c. c \<noteq> CHR ''.'') (rev ?comp) = CHR ''.'' # r"
    using dw hd by (cases "dropWhile (\<lambda>c. c \<noteq> CHR ''.'') (rev ?comp)") auto
  have "rev ?comp = takeWhile (\<lambda>c. c \<noteq> CHR ''.'') (rev ?comp) @ CHR ''.'' # r"
    using takeWhile_dropWhile_id [of "\<lambda>c. c \<noteq> CHR ''.''" "rev ?comp"] r by simp
  then have "rev (rev ?comp) = rev (takeWhile (\<lambda>c. c \<noteq> CHR ''.'') (rev ?comp) @ CHR ''.'' # r)"
    by simp
  then have comp: "?comp = rev r @ CHR ''.'' # ?e" by simp
  then have sf: "suffix (CHR ''.'' # ?e) ?comp" unfolding suffix_def by blast
  show ?thesis
  proof (cases "extname p = []")
    case True
    then show ?thesis by simp
  next
    case False
    then have ex: "extname p = CHR ''.'' # ?e" and len: "length ?e + 1 \<noteq> length ?comp"
      by (auto simp: extname_def Let_def split: if_splits)
    have "CHR ''.'' # ?e \<noteq> ?comp"
    proof
      assume "CHR ''.'' # ?e = ?comp"
      then have "length (CHR ''.'' # ?e) = length ?comp" by (rule arg_cong)
      with len show False by simp
    qed
    with ex sf show ?thesis by simp
  qed
qed

lemma basename_extname_plain:
  assumes "list_all (\<lambda>c. \<not> isSlash c) f"
  shows "basename f (extname f) @ extname f = f"
proof -
  from assms have lc: "lastComponent f = f"
    by (intro lastComponent_plain) (simp add: list_all_iff)
  show ?thesis
  proof (cases "extname f = []")
    case True
    then show ?thesis by (simp add: basename_empty_suffix lc)
  next
    case False
    with extname_suffix [of f] lc have sf: "suffix (extname f) f" and ne: "extname f \<noteq> f"
      by auto
    from sf have le: "length (extname f) \<le> length f" by (rule suffix_length_le)
    from sf ne have lt: "length (extname f) \<noteq> length f"
      by (metis suffix_order.antisym suffix_order.refl suffix_def append_eq_append_conv append_Nil)
    from sf obtain pre where pre: "f = pre @ extname f" unfolding suffix_def by blast
    then have "take (length f - length (extname f)) f = pre"
      by (metis append_eq_conv_conj length_append add_diff_cancel_right')
    with False le ne sf lt pre show ?thesis
      by (simp add: basename_def lc Let_def)
  qed
qed

lemma showDigits_digits: "set (showDigits n) \<subseteq> set ''0123456789''"
proof (induction n rule: showDigits.induct)
  case (1 n)
  have d: "''0123456789'' ! k \<in> set ''0123456789''" if "k < 10" for k
    using that nth_mem [of k "''0123456789''"] by simp
  show ?case
  proof (cases "n < 10")
    case True
    then have "nat n < 10" by simp
    from d [OF this] True show ?thesis by (subst showDigits.simps) simp
  next
    case False
    with 1 have ih: "set (showDigits (n div 10)) \<subseteq> set ''0123456789''" by simp
    have "nat (n mod 10) < 10" by simp
    from d [OF this] ih False show ?thesis by (subst showDigits.simps) simp
  qed
qed

lemma showNumber_no_slash: "list_all (\<lambda>c. \<not> isSlash c) (showNumber n)"
proof -
  have dg: "\<forall>c \<in> set ''0123456789''. \<not> isSlash c" by code_simp
  have ds: "list_all (\<lambda>c. \<not> isSlash c) (showDigits k)" for k
    unfolding list_all_iff using showDigits_digits [of k] dg by blast
  have mi: "\<not> isSlash (CHR ''-'')" by code_simp
  show ?thesis
  proof (cases "n < 0")
    case True
    then have "showNumber n = CHR ''-'' # showDigits (- n)" by (simp add: showNumber_def)
    with mi ds [of "- n"] show ?thesis by simp
  next
    case False
    then have "showNumber n = showDigits n" by (simp add: showNumber_def)
    with ds [of n] show ?thesis by simp
  qed
qed

lemma valid_plain_clean:
  assumes "isValidFileName f" and "CHR ''/'' \<notin> set f"
  shows "cleanSegment f"
proof -
  from assms(1) have ne: "f \<noteq> []" and nd: "\<not> onlyDots f"
    by (auto simp: isValidFileName_def split: if_splits)
  from nd have "f \<noteq> ''.''" and "f \<noteq> ''..''"
    by (auto simp: onlyDots_def)
  with ne assms(2) show ?thesis
    by (auto simp: cleanSegment_def list_all_iff isSlash_def)
qed

lemma adjustedName_clean:
  assumes "list_all (\<lambda>c. \<not> isSlash c) f"
  shows "cleanSegment (adjustedName f now) \<and> adjustedName f now \<noteq> f"
proof -
  let ?b = "basename f (extname f)" and ?e = "extname f"
  from basename_extname_plain [OF assms] have f: "?b @ ?e = f" .
  then have "set ?b \<subseteq> set f" and "set ?e \<subseteq> set f"
    by (metis set_append Un_upper1, metis set_append Un_upper2)
  with assms have b: "list_all (\<lambda>c. \<not> isSlash c) ?b" and e: "list_all (\<lambda>c. \<not> isSlash c) ?e"
    unfolding list_all_iff by blast+
  have u: "CHR ''_'' \<in> set (adjustedName f now)" by (simp add: adjustedName_def)
  have ns: "list_all (\<lambda>c. \<not> isSlash c) (adjustedName f now)"
    using b e showNumber_no_slash [of now] by (simp add: adjustedName_def isSlash_def)
  have "adjustedName f now \<noteq> ''.''" and "adjustedName f now \<noteq> ''..''" and "adjustedName f now \<noteq> []"
    using u by auto
  with ns have "cleanSegment (adjustedName f now)" by (simp add: cleanSegment_def)
  moreover have "length (adjustedName f now) = length f + 1 + length (showNumber now)"
  proof -
    have "length (adjustedName f now) = length ?b + 1 + length (showNumber now) + length ?e"
      by (simp add: adjustedName_def)
    moreover have "length ?b + length ?e = length f" using f by (metis length_append)
    ultimately show ?thesis by simp
  qed
  then have "adjustedName f now \<noteq> f" by auto
  ultimately show ?thesis by simp
qed

lemma isDirNode_lookupNode:
  "isDirNode (lookupNode fs p) = (\<not> nameTooLong p \<and> isDirNode (map_of fs (pathKey p)))"
  by (simp add: lookupNode_def isDirNode_def split: option.splits node.splits)

lemma lookupNode_update_other:
  assumes "pathKey p \<noteq> k"
  shows "lookupNode (AList.update k v fs) p = lookupNode fs p"
  using assms by (simp add: lookupNode_def update_conv')

lemma lookupNode_update_same:
  assumes "pathKey p = k" and "p \<noteq> []" and "\<not> isSlash (last p)" and "\<not> nameTooLong p"
  shows "lookupNode (AList.update k (File c t) fs) p = Some (File c t)"
  using assms by (simp add: lookupNode_def update_conv')

lemma resolvePath_absolute:
  assumes "root \<noteq> []" and "isSlash (hd root)" and "resolvePath root rel = Inr d"
  shows "d \<noteq> [] \<and> isSlash (hd d)"
proof -
  from assms(3) have "prefix root d"
    by (simp add: resolvePath_def Let_def split: if_splits)
  then obtain r where "d = root @ r" unfolding prefix_def by blast
  with assms(1,2) show ?thesis by simp
qed

text \<open>The segments that normalization keeps are segments of the path.\<close>

lemma normalizeStep_subset: "set (normalizeStep False acc s) \<subseteq> insert s (set acc)"
proof (cases "s = [] \<or> s = ''.''")
  case True
  then show ?thesis by auto
next
  case False
  note nf = this
  show ?thesis
  proof (cases "s = ''..''")
    case True
    then show ?thesis by (cases acc) auto
  next
    case False
    with nf have "normalizeStep False acc s = s # acc" by simp
    then show ?thesis by simp
  qed
qed

lemma foldl_normalizeStep_subset:
  "set (foldl (normalizeStep False) acc segs) \<subseteq> set acc \<union> set segs"
proof (induction segs arbitrary: acc)
  case Nil
  show ?case by simp
next
  case (Cons s segs)
  have "set (foldl (normalizeStep False) (normalizeStep False acc s) segs)
      \<subseteq> set (normalizeStep False acc s) \<union> set segs"
    by (rule Cons.IH)
  also have "\<dots> \<subseteq> insert s (set acc) \<union> set segs"
    using normalizeStep_subset [of acc s] by blast
  finally show ?case by (simp del: normalizeStep.simps)
qed

lemma pathKey_subset: "set (pathKey p) \<subseteq> set (splitSlash p)"
  using foldl_normalizeStep_subset [of "[]" "splitSlash p"]
  by (simp add: pathKey_def normalizeString_def)

text \<open>The path that \<open>join\<close> builds from an absolute directory path and a clean segment.\<close>

lemma join_absolute_clean:
  assumes "d \<noteq> []" and "isSlash (hd d)" and "cleanSegment n"
  shows "join d n = CHR ''/'' # joinSlash (pathKey d @ [n])"
proof -
  let ?q = "d @ CHR ''/'' # n"
  let ?segs = "normalizeString False (splitSlash ?q)"
  from assms(3) have n: "n \<noteq> []" "\<not> isSlash (last n)"
    by (auto simp: cleanSegment_def list_all_iff)
  have segs: "?segs = pathKey d @ [n]"
    using pathKey_snoc [OF assms(3), of d] by (simp add: pathKey_def)
  have cl: "list_all cleanSegment ?segs"
    using pathKey_clean [of ?q] by (simp add: pathKey_def)
  have ne: "joinSlash ?segs \<noteq> []"
    using segs cl by (intro joinSlash_nonempty) simp_all
  have lastq: "last ?q = last n" using n by simp
  have "join d n = normalize ?q" using assms(1) n by (simp add: join_def)
  also have "\<dots> = CHR ''/'' # joinSlash ?segs"
    using assms(1,2) ne n lastq by (simp add: normalize_def Let_def)
  finally show ?thesis using segs by simp
qed

lemma splitSlash_join:
  assumes "d \<noteq> []" and "isSlash (hd d)" and "cleanSegment n"
  shows "splitSlash (join d n) = [] # pathKey d @ [n]"
proof -
  have cl: "list_all cleanSegment (pathKey d @ [n])"
    using pathKey_clean [of d] assms(3) by simp
  have "splitSlash (joinSlash (pathKey d @ [n])) = pathKey d @ [n]"
    using clean_no_slash [OF cl] by (intro splitSlash_joinSlash) simp_all
  then show ?thesis
    using join_absolute_clean [OF assms] by (simp add: isSlash_def)
qed

text \<open>
  A clean segment within the limit on names, joined to a directory path that the host
  accepts, gives a path that the host accepts, unless the whole path becomes too long.
\<close>

lemma join_not_too_long:
  assumes "d \<noteq> []" and "isSlash (hd d)" and "cleanSegment n"
    and "\<not> nameTooLong d"
    and "byteLength n \<le> 255"
    and "byteLength (join d n) < 4096"
  shows "\<not> nameTooLong (join d n)"
proof -
  from assms(4) have dsegs: "\<forall>s \<in> set (splitSlash d). byteLength s \<le> 255"
    by (auto simp: nameTooLong_def NAME_MAX_def list_ex_iff)
  have "byteLength s \<le> 255" if "s \<in> set (splitSlash (join d n))" for s
  proof -
    from that splitSlash_join [OF assms(1-3)] have "s = [] \<or> s \<in> set (pathKey d) \<or> s = n"
      by auto
    then show ?thesis
    proof (elim disjE)
      assume "s = []"
      then show ?thesis by (simp add: byteLength_def)
    next
      assume "s \<in> set (pathKey d)"
      with pathKey_subset [of d] have "s \<in> set (splitSlash d)" by blast
      with dsegs show ?thesis by blast
    next
      assume "s = n"
      with assms(5) show ?thesis by simp
    qed
  qed
  then have "\<forall>s \<in> set (splitSlash (join d n)). \<not> NAME_MAX < byteLength s"
    by (simp add: NAME_MAX_def not_less)
  then have "\<not> list_ex (\<lambda>s. NAME_MAX < byteLength s) (splitSlash (join d n))"
    by (simp add: list_ex_iff)
  with assms(6) show ?thesis by (simp add: nameTooLong_def PATH_MAX_def)
qed

text \<open>
  Claim C4, as the code has it. The root is an absolute path, the filename of the part
  passes the validator and has no slash, the target resolves to an existing directory that
  already has an entry of that name, and no directory stands under the adjusted name. The
  time is a value that \<^verbatim>\<open>Date.now()\<close> can return. The adjusted name is within the host's
  limit of 255 bytes for a name, and the path of the new file within the limit of 4096
  bytes for a path with its terminating zero byte, both in UTF-8. Then the upload succeeds,
  the stored and reported name is the base name, an underscore, \<^verbatim>\<open>Date.now()\<close> in decimal
  and the extension, the entry that was there is unchanged, and the new file holds the
  uploaded content.
\<close>

theorem uploadFile_collision:
  assumes root: "root \<noteq> []" "isSlash (hd root)"
    and valid: "isValidFileName (filename file)"
    and plain: "CHR ''/'' \<notin> set (filename file)"
    and time: "isTimeValue now"
    and res: "resolvePath root targetRelativePath = Inr targetDir"
    and isdir: "isDirNode (lookupNode fs targetDir)"
    and ex: "existsSync fs (join targetDir (filename file))"
    and nodir: "\<not> isDirNode (lookupNode fs (join targetDir (adjustedName (filename file) now)))"
    and short: "byteLength (adjustedName (filename file) now) \<le> 255"
    and shortPath: "byteLength (join targetDir (adjustedName (filename file) now)) < 4096"
  shows "\<exists>fs'. uploadFile root now fs file targetRelativePath
           = Inr (fs', \<lparr>up_message = ''Archivo subido (renombrado para evitar duplicados)'',
                        up_filename = adjustedName (filename file) now,
                        up_path = join targetRelativePath (adjustedName (filename file) now),
                        up_size = length (content file)\<rparr>)
           \<and> lookupNode fs' (join targetDir (filename file))
               = lookupNode fs (join targetDir (filename file))
           \<and> lookupNode fs' (join targetDir (adjustedName (filename file) now))
               = Some (File (content file) now)"
proof -
  let ?f = "filename file"
  let ?n = "adjustedName ?f now"
  let ?fp = "join targetDir ?f"
  let ?np = "join targetDir ?n"
  let ?k = "pathKey ?np"
  from resolvePath_absolute [OF root res] have d: "targetDir \<noteq> []" "isSlash (hd targetDir)"
    by simp_all
  from plain have pl: "list_all (\<lambda>c. \<not> isSlash c) ?f"
    by (auto simp: list_all_iff isSlash_def)
  from valid_plain_clean [OF valid plain] have cf: "cleanSegment ?f" .
  from adjustedName_clean [OF pl] have cn: "cleanSegment ?n" and ne: "?n \<noteq> ?f"
    by simp_all
  from isdir have dl: "\<not> nameTooLong targetDir" and dd: "isDirNode (map_of fs (pathKey targetDir))"
    by (simp_all add: isDirNode_lookupNode)
  have nl: "\<not> nameTooLong ?np"
    using d cn dl short shortPath by (rule join_not_too_long)
  have kf: "pathKey ?fp = pathKey targetDir @ [?f]"
    using d cf by (rule pathKey_join)
  have kn: "?k = pathKey targetDir @ [?n]"
    using d cn by (rule pathKey_join)
  from join_no_trailing_slash [OF d cn] have nt: "?np \<noteq> []" "\<not> isSlash (last ?np)"
    by simp_all
  have parent: "hasParentDir fs ?k"
    using dd by (simp add: hasParentDir_def kn)
  have free: "\<not> isDirNode (map_of fs ?k)"
    using nodir nl by (simp add: isDirNode_lookupNode)
  have w: "writeFile fs ?np (content file) now = Inr (AList.update ?k (File (content file) now) fs)"
    using nt nl parent free by (simp add: writeFile_def Let_def)
  have up: "uploadFile root now fs file targetRelativePath
      = Inr (AList.update ?k (File (content file) now) fs,
             \<lparr>up_message = ''Archivo subido (renombrado para evitar duplicados)'',
              up_filename = ?n,
              up_path = join targetRelativePath ?n,
              up_size = length (content file)\<rparr>)"
    using valid res isdir ex w
    by (simp add: uploadFile_def Let_def adjustedName_def)
  have old: "lookupNode (AList.update ?k (File (content file) now) fs) ?fp = lookupNode fs ?fp"
    using ne by (intro lookupNode_update_other) (simp add: kf kn)
  have new: "lookupNode (AList.update ?k (File (content file) now) fs) ?np
      = Some (File (content file) now)"
    using nt nl by (intro lookupNode_update_same) simp_all
  from up old new show ?thesis by blast
qed

theorem uploadFile_collision_witness:
  "\<exists>fs'. uploadFile exampleRoot 1700000000000 exampleFs uploadedA ''docs''
           = Inr (fs', \<lparr>up_message = ''Archivo subido (renombrado para evitar duplicados)'',
                        up_filename = ''a_1700000000000.txt'',
                        up_path = ''docs/a_1700000000000.txt'',
                        up_size = 3\<rparr>)
           \<and> lookupNode fs' ''/srv/app/server/files/docs/a.txt'' = Some (File ''hello'' 5)
           \<and> lookupNode fs' ''/srv/app/server/files/docs/a_1700000000000.txt''
               = Some (File ''new'' 1700000000000)"
proof -
  have h1: "exampleRoot \<noteq> []" "isSlash (hd exampleRoot)" by code_simp+
  have h2: "isValidFileName (filename uploadedA)" by code_simp
  have h3: "CHR ''/'' \<notin> set (filename uploadedA)" by code_simp
  have h4: "isTimeValue 1700000000000" by (simp add: isTimeValue_def)
  have h5: "resolvePath exampleRoot ''docs'' = Inr ''/srv/app/server/files/docs''" by code_simp
  have h6: "isDirNode (lookupNode exampleFs ''/srv/app/server/files/docs'')" by code_simp
  have h7: "existsSync exampleFs (join ''/srv/app/server/files/docs'' (filename uploadedA))"
    by code_simp
  have h8: "\<not> isDirNode (lookupNode exampleFs
      (join ''/srv/app/server/files/docs'' (adjustedName (filename uploadedA) 1700000000000)))"
    by code_simp
  have e1: "adjustedName (filename uploadedA) 1700000000000 = ''a_1700000000000.txt''"
    by code_simp
  have e2: "join ''docs'' ''a_1700000000000.txt'' = ''docs/a_1700000000000.txt''" by code_simp
  have e3: "join ''/srv/app/server/files/docs'' ''a_1700000000000.txt''
      = ''/srv/app/server/files/docs/a_1700000000000.txt''" by code_simp
  have e4: "join ''/srv/app/server/files/docs'' (filename uploadedA)
      = ''/srv/app/server/files/docs/a.txt''" by code_simp
  have e5: "lookupNode exampleFs ''/srv/app/server/files/docs/a.txt'' = Some (File ''hello'' 5)"
    by code_simp
  have e6: "length (content uploadedA) = 3" by (simp add: uploadedA_def)
  have e7: "content uploadedA = ''new''" by (simp add: uploadedA_def)
  have h9: "byteLength (adjustedName (filename uploadedA) 1700000000000) \<le> 255"
    unfolding e1 by (simp add: byteLength_def)
  have h10: "byteLength (join ''/srv/app/server/files/docs''
      (adjustedName (filename uploadedA) 1700000000000)) < 4096"
    unfolding e1 e3 by (simp add: byteLength_def)
  note t = uploadFile_collision [OF h1 h2 h3 h4 h5 h6 h7 h8 h9 h10]
  note t1 = t [unfolded e1 e2 e3 e4 e5 e6]
  from t1 [unfolded e7] show ?thesis .
qed

text \<open>The path of the file that the third example overwrites.\<close>

definition trickPath :: string where
  "trickPath = ''/srv/app/server/files/docs/.._1700000000000''"

text \<open>
  Claim C4 as it is written fails in four ways. The file \<^verbatim>\<open>con.txt\<close> exists in \<^verbatim>\<open>mixed\<close>, and
  an upload under that name is refused as an invalid name. When a directory stands under the
  adjusted name, the upload of \<^verbatim>\<open>a.txt\<close> fails in the filesystem call. A filename with
  slashes can make the adjusted name the existing entry itself: after
  \<^verbatim>\<open>.._1700000000000\<close> has been uploaded with the content \<^verbatim>\<open>old\<close>, the upload of
  \<^verbatim>\<open>.._1700000000000/x/..\<close> at the time 1700000000000 succeeds and replaces that content.
  And a name of 242 characters passes the validator and is stored by a first upload, but
  the second upload fails in the filesystem call, because the adjusted name has 256
  bytes.
\<close>

theorem uploadFile_collision_failures:
  "existsSync exampleFs ''/srv/app/server/files/mixed/con.txt''
   \<and> uploadFile exampleRoot 1700000000000 exampleFs uploadedCon ''mixed'' = Inl InvalidName
   \<and> (case createFolder exampleRoot 9 exampleFs ''docs'' ''a_1700000000000.txt'' of
         Inl e \<Rightarrow> Inl e
       | Inr r \<Rightarrow> uploadFile exampleRoot 1700000000000 (fst r) uploadedA ''docs'')
       = Inl HostError
   \<and> (case uploadFile exampleRoot 9 exampleFs uploadedOld ''docs'' of
         Inl e \<Rightarrow> None
       | Inr r \<Rightarrow>
           (case uploadFile exampleRoot 1700000000000 (fst r) uploadedTrick ''docs'' of
              Inl e \<Rightarrow> None
            | Inr r' \<Rightarrow> Some (lookupNode (fst r) trickPath, lookupNode (fst r') trickPath,
                              up_filename (snd r'))))
       = Some (Some (File ''old'' 9), Some (File ''new'' 1700000000000), ''.._1700000000000'')
   \<and> (case uploadFile exampleRoot 9 exampleFs uploadedLong ''docs'' of
         Inl e \<Rightarrow> None
       | Inr r \<Rightarrow>
           Some (isValidFileName longName,
                 lookupNode (fst r) (join ''/srv/app/server/files/docs'' longName),
                 byteLength (adjustedName longName 1700000000000),
                 uploadFile exampleRoot 1700000000000 (fst r) uploadedLong ''docs''))
       = Some (True, Some (File ''new'' 9), 256, Inl HostError)"
  by code_simp

end
